theory Spec2Isabelle
  imports Main
begin

section \<open>JavaScript values, objects and strings\<close>

text \<open>
  The values the client handles are JSON-like: tool schemas, tool-call arguments and tool
  results. A JavaScript object is an association list. A key is bound once in an object,
  so the lists that stand for objects have distinct keys; a read of a list that repeats a
  key takes the first binding. Strings are HOL strings (code units below 256).
\<close>

datatype jsval =
    JUndefined
  | JNull
  | JBool bool
  | JNum int
  | JStr string
  | JArr "jsval list"
  | JObj "(string \<times> jsval) list"

type_synonym jsobject = "(string \<times> jsval) list"

text \<open>\<open>Boolean(v)\<close>, the test behind \<open>!v\<close> and \<open>if (v)\<close> (numbers are integers here, so
  no NaN).\<close>

fun truthy :: "jsval \<Rightarrow> bool" where
  "truthy JUndefined = False"
| "truthy JNull = False"
| "truthy (JBool b) = b"
| "truthy (JNum n) = (n \<noteq> 0)"
| "truthy (JStr s) = (s \<noteq> [])"
| "truthy (JArr xs) = True"
| "truthy (JObj kvs) = True"

text \<open>\<open>obj[k]\<close> on an object: \<open>undefined\<close> when the key is absent.\<close>

definition getProp :: "jsobject \<Rightarrow> string \<Rightarrow> jsval" where
  "getProp obj k = (case map_of obj k of None \<Rightarrow> JUndefined | Some v \<Rightarrow> v)"

text \<open>\<open>obj[k] = v\<close>: the binding is replaced where it stands, or added last.\<close>

fun setProp :: "string \<Rightarrow> jsval \<Rightarrow> jsobject \<Rightarrow> jsobject" where
  "setProp k v [] = [(k, v)]"
| "setProp k v ((k', v') # rest) =
     (if k' = k then (k, v) # rest else (k', v') # setProp k v rest)"

text \<open>The object literal \<open>{ ...a, ...b }\<close>: the bindings of \<open>a\<close>, then each binding of
  \<open>b\<close> assigned over them in turn.\<close>

definition spread2 :: "jsobject \<Rightarrow> jsobject \<Rightarrow> jsobject" where
  "spread2 a b = fold (\<lambda>(k, v) acc. setProp k v acc) b (fold (\<lambda>(k, v) acc. setProp k v acc) a [])"

text \<open>\<open>Object.keys(obj)\<close>, each key once.\<close>

definition objectKeys :: "jsobject \<Rightarrow> string list" where
  "objectKeys obj = remdups (map fst obj)"

text \<open>The decimal numeral of an array index, as a property key.\<close>

function showNat :: "nat \<Rightarrow> string" where
  "showNat n =
     (if n < 10 then [char_of (48 + n)]
      else showNat (n div 10) @ [char_of (48 + n mod 10)])"
  by pat_completeness auto
termination
  by (relation "measure id") auto

text \<open>The own enumerable properties of a value, as the spread \<open>{ ...v }\<close>, \<open>Object.keys(v)\<close>
  and \<open>v[k]\<close> see them: an object's bindings, an array's elements and a string's characters
  under their indices, nothing for a number, a boolean, \<open>null\<close> or \<open>undefined\<close>.\<close>

definition ownProps :: "jsval \<Rightarrow> jsobject" where
  "ownProps v =
     (case v of
        JObj kvs \<Rightarrow> kvs
      | JArr xs \<Rightarrow> map (\<lambda>i. (showNat i, xs ! i)) [0..<length xs]
      | JStr s \<Rightarrow> map (\<lambda>i. (showNat i, JStr [s ! i])) [0..<length s]
      | _ \<Rightarrow> [])"

text \<open>\<open>v?.k\<close> for a key \<open>k\<close> that no prototype defines (\<open>type\<close>, \<open>properties\<close>):
  \<open>undefined\<close> on \<open>null\<close> and \<open>undefined\<close>, the own property otherwise.\<close>

definition propOf :: "jsval \<Rightarrow> string \<Rightarrow> jsval" where
  "propOf v k = getProp (ownProps v) k"

text \<open>\<open>String.prototype.trim\<close>: white space and line terminators below code 256 are tab,
  line feed, vertical tab, form feed, carriage return, space and the no-break space.\<close>

definition isWhiteSpace :: "char \<Rightarrow> bool" where
  "isWhiteSpace c = ((of_char c :: nat) \<in> {9, 10, 11, 12, 13, 32, 160})"

definition trim :: "string \<Rightarrow> string" where
  "trim s = rev (dropWhile isWhiteSpace (rev (dropWhile isWhiteSpace s)))"

text \<open>\<open>String.prototype.toLowerCase\<close> on code units below 256: the capital letters are
  \<open>A\<close> to \<open>Z\<close> and the accented capitals 192 to 222, without the multiplication sign
  215.\<close>

definition toLowerCase :: "string \<Rightarrow> string" where
  "toLowerCase s =
     map (\<lambda>c. let n = (of_char c :: nat)
              in if (65 \<le> n \<and> n \<le> 90) \<or> (192 \<le> n \<and> n \<le> 214) \<or> (216 \<le> n \<and> n \<le> 222)
                 then char_of (n + 32) else c) s"

section \<open>Errors\<close>

text \<open>
  Every failure of the source is a plain \<open>Error\<close> with a message; the constructors name
  the messages. \<open>External\<close> is an error raised by the RPC library (transport
  construction, connect, listTools, callTool), with its message.
\<close>

datatype error =
    MissingApiKey
  | NoTransportAttempts
  | AllTransportsFailed
  | ToolNotFound string
  | EmptyQuestion
  | NotConnected
  | UnknownTarget string
  | NoTargets
  | External string

section \<open>Transport selection\<close>

text \<open>What a factory builds when it is called: the transport class, its URL and the
  headers it is given.\<close>

datatype transport_spec =
    StreamableHTTP string jsobject
  | SSE string jsobject jsobject

record attempt =
  label :: string
  create :: transport_spec

record init_options =
  headers :: jsobject
  requestInit :: jsobject
  io_transportPreference :: string
  io_sseUrl :: string
  io_streamableUrl :: string

definition buildTransportAttempts :: "init_options \<Rightarrow> attempt list" where
  "buildTransportAttempts io =
     (let normalizedPreference =
            (if io_transportPreference io \<in> set [''sse'', ''streamable'']
             then io_transportPreference io else ''auto'');
          attempts1 =
            (if normalizedPreference = ''streamable'' \<or> normalizedPreference = ''auto''
             then [\<lparr>label = ''streamable-http @ '' @ io_streamableUrl io,
                    create = StreamableHTTP (io_streamableUrl io) (requestInit io)\<rparr>]
             else []);
          attempts2 =
            (if normalizedPreference = ''sse'' \<or> normalizedPreference = ''auto''
             then attempts1 @ [\<lparr>label = ''sse @ '' @ io_sseUrl io,
                    create = SSE (io_sseUrl io) (headers io) (requestInit io)\<rparr>]
             else attempts1)
      in attempts2)"

section \<open>The RPC library, as the client sees it\<close>

text \<open>
  The library's clients and transports are outside the repository. What a run of the
  client observes of them is given by an environment: whether an attempt's factory throws
  (\<open>new URL\<close> or the transport's constructor), whether the connect call over its transport
  rejects, whether the close calls reject, what \<open>listTools\<close> and \<open>callTool\<close> answer. An error
  of the library is its message.
\<close>

record tool =
  tool_name :: string
  inputSchema :: jsval

record env =
  factoryError :: "attempt \<Rightarrow> string option"
  connectError :: "attempt \<Rightarrow> string option"
  clientCloseRejects :: "string \<Rightarrow> bool"
  transportCloseRejects :: "string \<Rightarrow> bool"
  listToolsResult :: "string + tool list"
  callToolResult :: "string \<Rightarrow> jsobject \<Rightarrow> string + jsval"

text \<open>What a run does to the outside, in order. A client or a transport is named by the
  label of the attempt that built it; a close event records whether the close call
  rejected.\<close>

datatype event =
    ClientCreated string
  | TransportCreated string
  | ConnectCalled string
  | Warned string string
  | ClientClosed string bool
  | TransportClosed string bool
  | ToolsListed string
  | ToolCalled string jsobject

record connection =
  conn_client :: string
  conn_transport :: string
  conn_label :: string

section \<open>connectWithFallback\<close>

text \<open>The loop over the attempts, with \<open>lastError\<close> as it stands before the attempt.
  \<open>attempt.create()\<close> is called before the \<open>try\<close> block, so what it throws leaves the
  function; what \<open>connect\<close> throws is caught; the throw after the loop is the last
  equation.\<close>

fun tryAttempts :: "env \<Rightarrow> attempt list \<Rightarrow> error option \<Rightarrow> (error + connection) \<times> event list" where
  "tryAttempts e [] lastError =
     (Inl (case lastError of None \<Rightarrow> AllTransportsFailed | Some err \<Rightarrow> err), [])"
| "tryAttempts e (a # rest) lastError =
     (case factoryError e a of
        Some msg \<Rightarrow> (Inl (External msg), [ClientCreated (label a)])
      | None \<Rightarrow>
          (case connectError e a of
             None \<Rightarrow>
               (Inr \<lparr>conn_client = label a, conn_transport = label a, conn_label = label a\<rparr>,
                [ClientCreated (label a), TransportCreated (label a), ConnectCalled (label a)])
           | Some msg \<Rightarrow>
               (let (r, evs) = tryAttempts e rest (Some (External msg))
                in (r, [ClientCreated (label a), TransportCreated (label a),
                        ConnectCalled (label a), Warned (label a) msg,
                        ClientClosed (label a) (clientCloseRejects e (label a)),
                        TransportClosed (label a) (transportCloseRejects e (label a))] @ evs))))"

definition connectWithFallback :: "env \<Rightarrow> init_options \<Rightarrow> (error + connection) \<times> event list" where
  "connectWithFallback e initOptions =
     (let attempts = buildTransportAttempts initOptions
      in if attempts = [] then (Inl NoTransportAttempts, [])
         else tryAttempts e attempts None)"

text \<open>Two observations on an attempt, and the events of an attempt whose factory returns
  and whose connect call rejects: the warning, then the two close calls.\<close>

definition connectFails :: "env \<Rightarrow> attempt \<Rightarrow> bool" where
  "connectFails e a = (factoryError e a = None \<and> connectError e a \<noteq> None)"

definition connects :: "env \<Rightarrow> attempt \<Rightarrow> bool" where
  "connects e a = (factoryError e a = None \<and> connectError e a = None)"

definition failureEvents :: "env \<Rightarrow> attempt \<Rightarrow> event list" where
  "failureEvents e a =
     [ClientCreated (label a), TransportCreated (label a), ConnectCalled (label a),
      Warned (label a) (case connectError e a of None \<Rightarrow> [] | Some msg \<Rightarrow> msg),
      ClientClosed (label a) (clientCloseRejects e (label a)),
      TransportClosed (label a) (transportCloseRejects e (label a))]"

section \<open>pickPrimaryArgument\<close>

text \<open>\<open>schema.properties ?? {}\<close>, as the properties the function then reads.\<close>

definition schemaProps :: "jsval \<Rightarrow> jsobject" where
  "schemaProps schema =
     (case propOf schema ''properties'' of
        JUndefined \<Rightarrow> [] | JNull \<Rightarrow> [] | p \<Rightarrow> ownProps p)"

definition pickPrimaryArgument :: "jsval \<Rightarrow> string option" where
  "pickPrimaryArgument schema =
     (if \<not> truthy schema \<or> propOf schema ''type'' \<noteq> JStr ''object'' then None
      else
        let props = schemaProps schema
        in if truthy (getProp props ''query'') then Some ''query''
           else if truthy (getProp props ''question'') then Some ''question''
           else
             let entries = objectKeys props
             in (case entries of
                   [k] \<Rightarrow> Some k
                 | _ \<Rightarrow>
                    (let stringOnly =
                       filter (\<lambda>key. propOf (getProp props key) ''type'' = JStr ''string'') entries
                     in (case stringOnly of [k] \<Rightarrow> Some k | _ \<Rightarrow> None))))"

text \<open>The test of the last filter of \<open>pickPrimaryArgument\<close>: \<open>props[key]?.type === 'string'\<close>.\<close>

definition stringTyped :: "jsobject \<Rightarrow> string \<Rightarrow> bool" where
  "stringTyped props key = (propOf (getProp props key) ''type'' = JStr ''string'')"

section \<open>McpChatClient\<close>

text \<open>The promise kept in \<open>connectPromise\<close>, with its state.\<close>

datatype promise = Pending | Fulfilled | Rejected error

record session =
  sseUrl :: string
  streamableUrl :: string
  apiKey :: "string option"
  toolName :: string
  transportPreference :: string
  staticArgs :: jsobject
  productFilter :: "string option"
  client :: "string option"
  transport :: "string option"
  connectionLabel :: string
  primaryArgKey :: string
  selectedTool :: "tool option"
  connectPromise :: "promise option"

record client_options =
  o_sseUrl :: "string option"
  o_streamableUrl :: "string option"
  o_apiKey :: "string option"
  o_toolName :: "string option"
  o_transportPreference :: "string option"
  o_staticArgs :: "jsobject option"
  o_product :: "string option"
  o_useProcessEnv :: "bool option"

text \<open>\<open>process.env\<close>, and \<open>JSON.parse\<close> (\<open>None\<close> where it throws).\<close>

record process =
  process_env :: "string \<Rightarrow> string option"
  json_parse :: "string \<Rightarrow> jsval option"

definition DEFAULT_SSE_URL :: string where
  "DEFAULT_SSE_URL = ''https://docs-ai.cloudapps.cisco.com/mcp/sse''"

definition DEFAULT_TOOL_NAME :: string where
  "DEFAULT_TOOL_NAME = ''ask_cisco_documentation''"

text \<open>\<open>a ?? b\<close> on values that are \<open>undefined\<close> when absent.\<close>

definition orElse :: "'a option \<Rightarrow> 'a option \<Rightarrow> 'a option" where
  "orElse a b = (case a of None \<Rightarrow> b | Some x \<Rightarrow> Some x)"

text \<open>\<open>safeParseJson\<close>: \<open>null\<close> for an absent or empty payload and for one that does not
  parse (after a warning).\<close>

definition safeParseJson :: "process \<Rightarrow> string option \<Rightarrow> jsval" where
  "safeParseJson pr payload =
     (case payload of
        None \<Rightarrow> JNull
      | Some p \<Rightarrow> if p = [] then JNull
                  else (case json_parse pr p of None \<Rightarrow> JNull | Some v \<Rightarrow> v))"

text \<open>\<open>urlString.replace(/\/sse\/?$/i, '')\<close>: a final \<open>/sse\<close> or \<open>/sse/\<close>, in any case, is
  removed.\<close>

definition stripSseSuffix :: "string \<Rightarrow> string" where
  "stripSseSuffix urlString =
     (if urlString = [] then urlString
      else
        let n = length urlString; low = toLowerCase urlString
        in if 5 \<le> n \<and> drop (n - 5) low = ''/sse/'' then take (n - 5) urlString
           else if 4 \<le> n \<and> drop (n - 4) low = ''/sse'' then take (n - 4) urlString
           else urlString)"

definition McpChatClient :: "process \<Rightarrow> client_options \<Rightarrow> session" where
  "McpChatClient pr options =
     (let useEnv = (o_useProcessEnv options \<noteq> Some False);
          env = (if useEnv then process_env pr else (\<lambda>_. None));
          sse = (case orElse (o_sseUrl options) (orElse (env ''MCP_SSE_URL'') (env ''MCP_SERVER_URL''))
                 of None \<Rightarrow> DEFAULT_SSE_URL | Some u \<Rightarrow> u);
          streamable = (case orElse (o_streamableUrl options) (env ''MCP_STREAMABLE_URL'')
                        of None \<Rightarrow> stripSseSuffix sse | Some u \<Rightarrow> u);
          key = orElse (o_apiKey options)
                  (orElse (env ''MCP_API_KEY'') (orElse (env ''CISCO_DOCS_API_KEY'') (env ''X_API_KEY'')));
          tname = (case orElse (o_toolName options) (env ''MCP_TOOL_NAME'')
                   of None \<Rightarrow> DEFAULT_TOOL_NAME | Some t \<Rightarrow> t);
          pref = toLowerCase (case orElse (o_transportPreference options) (env ''MCP_TRANSPORT'')
                              of None \<Rightarrow> ''auto'' | Some p \<Rightarrow> p);
          extra = (case o_staticArgs options of
                     Some a \<Rightarrow> a
                   | None \<Rightarrow> (case safeParseJson pr (env ''MCP_EXTRA_ARGS'') of
                                JNull \<Rightarrow> [] | v \<Rightarrow> ownProps v));
          initialProduct = (case orElse (o_product options)
                                   (orElse (env ''MCP_PRODUCT'') (env ''DOCS_PRODUCT''))
                            of None \<Rightarrow> [] | Some p \<Rightarrow> p)
      in \<lparr>sseUrl = sse,
          streamableUrl = streamable,
          apiKey = key,
          toolName = tname,
          transportPreference = pref,
          staticArgs = spread2 extra [],
          productFilter = (if trim initialProduct = [] then None else Some (trim initialProduct)),
          client = None,
          transport = None,
          connectionLabel = [],
          primaryArgKey = ''query'',
          selectedTool = None,
          connectPromise = None\<rparr>)"

definition isConnected :: "session \<Rightarrow> bool" where
  "isConnected s = (client s \<noteq> None)"

definition getProductFilter :: "session \<Rightarrow> string option" where
  "getProductFilter s = productFilter s"

text \<open>\<open>setProductFilter(value)\<close>, with \<open>None\<close> for a value that is \<open>undefined\<close> or \<open>null\<close>:
  the new filter is returned with the updated client.\<close>

definition setProductFilter :: "string option \<Rightarrow> session \<Rightarrow> string option \<times> session" where
  "setProductFilter v s =
     (let f = (case v of
                 None \<Rightarrow> None
               | Some x \<Rightarrow> if trim x \<noteq> [] then Some (trim x) else None)
      in (f, s\<lparr>productFilter := f\<rparr>))"

definition getConnectionLabel :: "session \<Rightarrow> string" where
  "getConnectionLabel s = connectionLabel s"

text \<open>\<open>!this.apiKey\<close> is true for a key that is absent and for the empty string.\<close>

definition hasApiKey :: "session \<Rightarrow> bool" where
  "hasApiKey s = (case apiKey s of None \<Rightarrow> False | Some k \<Rightarrow> k \<noteq> [])"

definition initOptionsOf :: "session \<Rightarrow> init_options" where
  "initOptionsOf s =
     (let hdrs = [(''X-API-Key'', JStr (case apiKey s of None \<Rightarrow> [] | Some k \<Rightarrow> k))];
          reqInit = [(''headers'', JObj (spread2 hdrs [(''Content-Type'', JStr ''application/json'')]))]
      in \<lparr>headers = hdrs,
          requestInit = reqInit,
          io_transportPreference = transportPreference s,
          io_sseUrl = sseUrl s,
          io_streamableUrl = streamableUrl s\<rparr>)"

text \<open>
  \<open>#connectInternal\<close> suspends twice inside its \<open>try\<close> block. The first part runs
  \<open>connectWithFallback\<close> and, when it succeeds, stores the handles and calls \<open>listTools\<close>; the
  second part takes the answer of \<open>listTools\<close>. Every way out of the \<open>try\<close> block passes
  the \<open>finally\<close> block, which clears \<open>connectPromise\<close>.
\<close>

definition connectInternal_transport :: "env \<Rightarrow> session \<Rightarrow> (error + unit) \<times> session \<times> event list" where
  "connectInternal_transport e s =
     (case connectWithFallback e (initOptionsOf s) of
        (Inl err, evs) \<Rightarrow> (Inl err, s\<lparr>connectPromise := None\<rparr>, evs)
      | (Inr c, evs) \<Rightarrow>
          (Inr (),
           s\<lparr>client := Some (conn_client c),
             transport := Some (conn_transport c),
             connectionLabel := conn_label c\<rparr>,
           evs @ [ToolsListed (conn_client c)]))"

definition connectInternal_tools :: "env \<Rightarrow> session \<Rightarrow> (error + unit) \<times> session" where
  "connectInternal_tools e s =
     (case listToolsResult e of
        Inl msg \<Rightarrow> (Inl (External msg), s\<lparr>connectPromise := None\<rparr>)
      | Inr tools \<Rightarrow>
          (let s1 = s\<lparr>selectedTool := find (\<lambda>t. tool_name t = toolName s) tools\<rparr>
           in (case selectedTool s1 of
                 None \<Rightarrow> (Inl (ToolNotFound (toolName s1)), s1\<lparr>connectPromise := None\<rparr>)
               | Some t \<Rightarrow>
                   (Inr (),
                    s1\<lparr>primaryArgKey :=
                          (case pickPrimaryArgument (inputSchema t) of
                             None \<Rightarrow> primaryArgKey s1
                           | Some k \<Rightarrow> k),
                       connectPromise := None\<rparr>))))"

text \<open>The whole of \<open>#connectInternal\<close>, when nothing else runs between its parts. The
  check of the key stands before the \<open>try\<close> block: its throw does not pass \<open>finally\<close>.\<close>

definition connectInternal :: "env \<Rightarrow> session \<Rightarrow> (error + unit) \<times> session \<times> event list" where
  "connectInternal e s =
     (if \<not> hasApiKey s then (Inl MissingApiKey, s, [])
      else
        (case connectInternal_transport e s of
           (Inl err, s1, evs) \<Rightarrow> (Inl err, s1, evs)
         | (Inr u, s1, evs) \<Rightarrow>
             (case connectInternal_tools e s1 of (r, s2) \<Rightarrow> (r, s2, evs))))"

definition settled :: "error + unit \<Rightarrow> promise" where
  "settled r = (case r of Inl err \<Rightarrow> Rejected err | Inr u \<Rightarrow> Fulfilled)"

text \<open>
  \<open>connect()\<close> by one caller, run to its end: the outcome (\<open>None\<close> when the call awaits a
  promise that is still pending, which only another task can settle), the client
  afterwards and the events. The promise of \<open>#connectInternal\<close> is stored in
  \<open>connectPromise\<close>; where \<open>finally\<close> has not cleared the field, the stored promise is settled
  with the outcome.
\<close>

definition connect :: "env \<Rightarrow> session \<Rightarrow> (error + unit) option \<times> session \<times> event list" where
  "connect e s =
     (if client s \<noteq> None then (Some (Inr ()), s, [])
      else
        (case connectPromise s of
           Some Pending \<Rightarrow> (None, s, [])
         | Some Fulfilled \<Rightarrow> (Some (Inr ()), s, [])
         | Some (Rejected err) \<Rightarrow> (Some (Inl err), s, [])
         | None \<Rightarrow>
             (case connectInternal e (s\<lparr>connectPromise := Some Pending\<rparr>) of
                (r, s1, evs) \<Rightarrow>
                  (Some r,
                   (if connectPromise s1 = Some Pending
                    then s1\<lparr>connectPromise := Some (settled r)\<rparr> else s1),
                   evs))))"

text \<open>\<open>ask(question, argOverrides)\<close>: the question is \<open>None\<close> when it is \<open>undefined\<close> or
  \<open>null\<close>; the overrides are an object (\<open>{}\<close> by default). The answer of \<open>callTool\<close> is
  returned as it is.\<close>

definition ask :: "env \<Rightarrow> string option \<Rightarrow> jsobject \<Rightarrow> session \<Rightarrow> (error + jsval) option \<times> session \<times> event list" where
  "ask e question argOverrides s =
     (let trimmed = (case question of None \<Rightarrow> [] | Some q \<Rightarrow> trim q)
      in if trimmed = [] then (Some (Inl EmptyQuestion), s, [])
         else
           (case (if client s = None then connect e s else (Some (Inr ()), s, [])) of
              (None, s1, evs) \<Rightarrow> (None, s1, evs)
            | (Some (Inl err), s1, evs) \<Rightarrow> (Some (Inl err), s1, evs)
            | (Some (Inr u), s1, evs) \<Rightarrow>
                if client s1 = None \<or> selectedTool s1 = None then (Some (Inl NotConnected), s1, evs)
                else
                  (let args0 = spread2 (staticArgs s1) argOverrides;
                       args1 = setProp (primaryArgKey s1) (JStr trimmed) args0;
                       args2 = (case productFilter s1 of
                                  None \<Rightarrow> args1
                                | Some pf \<Rightarrow>
                                    if pf \<noteq> [] \<and> \<not> truthy (getProp args1 ''product'')
                                    then setProp ''product'' (JStr pf) args1 else args1)
                   in (Some (case callToolResult e (toolName s1) args2 of
                               Inl msg \<Rightarrow> Inl (External msg) | Inr v \<Rightarrow> Inr v),
                       s1, evs @ [ToolCalled (toolName s1) args2]))))"

definition close :: "env \<Rightarrow> session \<Rightarrow> session \<times> event list" where
  "close e s =
     (s\<lparr>client := None, transport := None, selectedTool := None, connectionLabel := []\<rparr>,
      (case client s of None \<Rightarrow> [] | Some c \<Rightarrow> [ClientClosed c (clientCloseRejects e c)]) @
      (case transport s of None \<Rightarrow> [] | Some t \<Rightarrow> [TransportClosed t (transportCloseRejects e t)]))"

text \<open>The value that the static arguments, the overrides and the question give an
  argument \<open>k\<close>, before the product filter is considered: the question under the primary
  key, else the override, else the static argument.\<close>

definition mergedArg :: "session \<Rightarrow> string \<Rightarrow> jsobject \<Rightarrow> string \<Rightarrow> jsval" where
  "mergedArg s question overrides k =
     (if k = primaryArgKey s then JStr question
      else (case map_of overrides k of
              Some v \<Rightarrow> v
            | None \<Rightarrow> getProp (staticArgs s) k))"

text \<open>Whether \<open>ask\<close> adds the product filter: a filter is set, and the merged arguments
  have no truthy \<open>product\<close>.\<close>

definition filterAdded :: "session \<Rightarrow> string \<Rightarrow> jsobject \<Rightarrow> bool" where
  "filterAdded s question overrides =
     (case productFilter s of
        None \<Rightarrow> False
      | Some pf \<Rightarrow> pf \<noteq> [] \<and> \<not> truthy (mergedArg s question overrides ''product''))"

section \<open>Interleaved calls of connect\<close>

text \<open>
  JavaScript runs one task at a time, and a task gives way only at an \<open>await\<close>. Between
  the two suspensions of \<open>#connectInternal\<close> other callers can call \<open>connect()\<close>. The machine
  holds the client, where the attempt in flight is suspended, the callers that await the
  shared promise, the callers that have their outcome, the number of attempt sequences
  started and the events. \<open>Call i\<close> is caller \<open>i\<close> calling \<open>connect()\<close>; \<open>Settle\<close> is the
  awaited operation of the attempt in flight completing. The environment of the \<open>n\<close>-th
  attempt sequence is \<open>envs n\<close>.
\<close>

datatype phase = Idle | AwaitingTransport | AwaitingTools

datatype action = Call nat | Settle

record machine =
  m_session :: session
  m_phase :: phase
  m_waiting :: "nat list"
  m_done :: "(nat \<times> (error + unit)) list"
  m_sequences :: nat
  m_trace :: "event list"

definition step :: "(nat \<Rightarrow> env) \<Rightarrow> action \<Rightarrow> machine \<Rightarrow> machine" where
  "step envs a m =
     (let s = m_session m in
      case a of
        Call i \<Rightarrow>
          (if client s \<noteq> None then m\<lparr>m_done := m_done m @ [(i, Inr ())]\<rparr>
           else
             (case connectPromise s of
                Some Pending \<Rightarrow> m\<lparr>m_waiting := m_waiting m @ [i]\<rparr>
              | Some Fulfilled \<Rightarrow> m\<lparr>m_done := m_done m @ [(i, Inr ())]\<rparr>
              | Some (Rejected err) \<Rightarrow> m\<lparr>m_done := m_done m @ [(i, Inl err)]\<rparr>
              | None \<Rightarrow>
                  if \<not> hasApiKey s
                  then m\<lparr>m_session := s\<lparr>connectPromise := Some (Rejected MissingApiKey)\<rparr>,
                         m_done := m_done m @ [(i, Inl MissingApiKey)]\<rparr>
                  else m\<lparr>m_session := s\<lparr>connectPromise := Some Pending\<rparr>,
                         m_phase := AwaitingTransport,
                         m_waiting := m_waiting m @ [i],
                         m_sequences := m_sequences m + 1\<rparr>))
      | Settle \<Rightarrow>
          (case m_phase m of
             Idle \<Rightarrow> m
           | AwaitingTransport \<Rightarrow>
               (case connectInternal_transport (envs (m_sequences m)) s of
                  (Inl err, s1, evs) \<Rightarrow>
                    m\<lparr>m_session := s1, m_phase := Idle,
                      m_done := m_done m @ map (\<lambda>i. (i, Inl err)) (m_waiting m),
                      m_waiting := [],
                      m_trace := m_trace m @ evs\<rparr>
                | (Inr u, s1, evs) \<Rightarrow>
                    m\<lparr>m_session := s1, m_phase := AwaitingTools, m_trace := m_trace m @ evs\<rparr>)
           | AwaitingTools \<Rightarrow>
               (case connectInternal_tools (envs (m_sequences m)) s of
                  (r, s2) \<Rightarrow>
                    m\<lparr>m_session := s2, m_phase := Idle,
                      m_done := m_done m @ map (\<lambda>i. (i, r)) (m_waiting m),
                      m_waiting := []\<rparr>)))"

definition run :: "(nat \<Rightarrow> env) \<Rightarrow> action list \<Rightarrow> machine \<Rightarrow> machine" where
  "run envs as m = fold (step envs) as m"

definition fresh :: "session \<Rightarrow> machine" where
  "fresh s = \<lparr>m_session = s, m_phase = Idle, m_waiting = [], m_done = [],
             m_sequences = 0, m_trace = []\<rparr>"

section \<open>ChatTargetManager\<close>

record target =
  t_name :: string
  t_options :: client_options
  t_useProcessEnv :: bool

record target_def =
  td_name :: string
  td_options :: "client_options option"
  td_useProcessEnv :: "bool option"

definition emptyOptions :: client_options where
  "emptyOptions =
     \<lparr>o_sseUrl = None, o_streamableUrl = None, o_apiKey = None, o_toolName = None,
      o_transportPreference = None, o_staticArgs = None, o_product = None,
      o_useProcessEnv = None\<rparr>"

text \<open>The manager, with the clients it has built in a store: the \<open>clients\<close> map binds a
  target name to the address of its client, so that the client a caller holds and the
  client the map holds are one object.\<close>

record manager =
  targets :: "target list"
  clients :: "(string \<times> nat) list"
  defaultTargetName :: string
  store :: "session list"

text \<open>The constructor; \<open>None\<close> is a list that is \<open>undefined\<close> or \<open>null\<close>.\<close>

definition ChatTargetManager :: "target_def list option \<Rightarrow> error + manager" where
  "ChatTargetManager tds =
     (case tds of
        None \<Rightarrow> Inl NoTargets
      | Some [] \<Rightarrow> Inl NoTargets
      | Some (d # ds) \<Rightarrow>
          (let ts = map (\<lambda>t. \<lparr>t_name = td_name t,
                                t_options = (case td_options t of None \<Rightarrow> emptyOptions | Some opts \<Rightarrow> opts),
                                t_useProcessEnv = (case td_useProcessEnv t of None \<Rightarrow> False | Some b \<Rightarrow> b)\<rparr>)
                        (d # ds)
           in Inr \<lparr>targets = ts, clients = [], defaultTargetName = t_name (hd ts), store = []\<rparr>))"

definition getTargetNames :: "manager \<Rightarrow> string list" where
  "getTargetNames m = map t_name (targets m)"

definition hasTarget :: "manager \<Rightarrow> string \<Rightarrow> bool" where
  "hasTarget m name = list_ex (\<lambda>t. t_name t = name) (targets m)"

definition setDefaultTarget :: "string \<Rightarrow> manager \<Rightarrow> error + manager" where
  "setDefaultTarget name m =
     (if \<not> hasTarget m name then Inl (UnknownTarget name)
      else Inr (m\<lparr>defaultTargetName := name\<rparr>))"

definition getDefaultTarget :: "manager \<Rightarrow> string" where
  "getDefaultTarget m = defaultTargetName m"

text \<open>\<open>getClient(targetName)\<close>, with \<open>None\<close> for a name that is \<open>undefined\<close> or \<open>null\<close>: the
  address of the client, and the manager afterwards.\<close>

definition getClient :: "process \<Rightarrow> string option \<Rightarrow> manager \<Rightarrow> (error + nat) \<times> manager" where
  "getClient pr targetName m =
     (let name = (case targetName of None \<Rightarrow> defaultTargetName m | Some n \<Rightarrow> n)
      in case find (\<lambda>t. t_name t = name) (targets m) of
           None \<Rightarrow> (Inl (UnknownTarget name), m)
         | Some tg \<Rightarrow>
             (case map_of (clients m) name of
                Some a \<Rightarrow> (Inr a, m)
              | None \<Rightarrow>
                  (let c = McpChatClient pr ((t_options tg)\<lparr>o_useProcessEnv := Some (t_useProcessEnv tg)\<rparr>);
                       a = length (store m)
                   in (Inr a, m\<lparr>clients := clients m @ [(name, a)], store := store m @ [c]\<rparr>))))"

record summary =
  sum_name :: string
  sum_productFilter :: "string option"
  sum_connected :: bool
  sum_connectionLabel :: string

text \<open>The client at an address of the store.\<close>

definition deref :: "manager \<Rightarrow> nat \<Rightarrow> session option" where
  "deref m a = (if a < length (store m) then Some (store m ! a) else None)"

text \<open>\<open>getTargetSummary(name)\<close>: the summary (\<open>None\<close> for \<open>null\<close>) and the manager
  afterwards.\<close>

definition getTargetSummary :: "string \<Rightarrow> manager \<Rightarrow> summary option \<times> manager" where
  "getTargetSummary name m =
     (case find (\<lambda>t. t_name t = name) (targets m) of
        None \<Rightarrow> (None, m)
      | Some tg \<Rightarrow>
          (let c = (case map_of (clients m) name of None \<Rightarrow> None | Some a \<Rightarrow> deref m a)
           in (Some \<lparr>sum_name = name,
                     sum_productFilter =
                       orElse (case c of None \<Rightarrow> None | Some cl \<Rightarrow> getProductFilter cl)
                              (o_product (t_options tg)),
                     sum_connected = (case c of None \<Rightarrow> False | Some cl \<Rightarrow> isConnected cl),
                     sum_connectionLabel = (case c of None \<Rightarrow> [] | Some cl \<Rightarrow> getConnectionLabel cl)\<rparr>,
               m)))"

text \<open>The cache of a manager is in order when each name is bound once and the clients of
  the store are, in order, the clients of the bindings: one client for each name that has
  been asked for, and no other.\<close>

definition wellCached :: "manager \<Rightarrow> bool" where
  "wellCached m =
     (distinct (map fst (clients m)) \<and> map snd (clients m) = [0..<length (store m)])"

section \<open>Sequences of connect and close\<close>

datatype op = OpConnect env | OpClose env

fun runOp :: "op \<Rightarrow> session \<Rightarrow> session" where
  "runOp (OpConnect e) s = fst (snd (connect e s))"
| "runOp (OpClose e) s = fst (close e s)"

definition runOps :: "op list \<Rightarrow> session \<Rightarrow> session" where
  "runOps ops s = fold runOp ops s"

text \<open>The key that a connection in environment \<open>e\<close> infers for the tool called \<open>name\<close>,
  if the server lists the tool and its schema allows an inference.\<close>

definition inferredKey :: "env \<Rightarrow> string \<Rightarrow> string option" where
  "inferredKey e name =
     (case listToolsResult e of
        Inl msg \<Rightarrow> None
      | Inr tools \<Rightarrow>
          (case find (\<lambda>t. tool_name t = name) tools of
             None \<Rightarrow> None
           | Some t \<Rightarrow> pickPrimaryArgument (inputSchema t)))"

definition infers :: "op \<Rightarrow> string \<Rightarrow> bool" where
  "infers x name = (case x of OpConnect e \<Rightarrow> inferredKey e name \<noteq> None | OpClose e \<Rightarrow> False)"

section \<open>Concrete clients and servers\<close>

definition noProcess :: process where
  "noProcess = \<lparr>process_env = (\<lambda>v. None), json_parse = (\<lambda>p. None)\<rparr>"

definition demoOptions :: client_options where
  "demoOptions = emptyOptions\<lparr>o_sseUrl := Some ''http://h/mcp/sse'', o_apiKey := Some ''key''\<rparr>"

definition demoClient :: session where
  "demoClient = McpChatClient noProcess demoOptions"

definition streamableLabel :: string where
  "streamableLabel = ''streamable-http @ http://h/mcp''"

definition sseLabel :: string where
  "sseLabel = ''sse @ http://h/mcp/sse''"

definition querySchema :: jsval where
  "querySchema =
     JObj [(''type'', JStr ''object''),
           (''properties'', JObj [(''query'', JObj [(''type'', JStr ''string'')])])]"

definition demoTool :: tool where
  "demoTool = \<lparr>tool_name = DEFAULT_TOOL_NAME, inputSchema = querySchema\<rparr>"

text \<open>A server that accepts every transport and lists the configured tool.\<close>

definition envOk :: env where
  "envOk =
     \<lparr>factoryError = (\<lambda>a. None),
      connectError = (\<lambda>a. None),
      clientCloseRejects = (\<lambda>l. False),
      transportCloseRejects = (\<lambda>l. False),
      listToolsResult = Inr [demoTool],
      callToolResult = (\<lambda>n a. Inr (JObj [(''content'', JArr [])]))\<rparr>"

text \<open>A server that accepts every transport and lists another tool only.\<close>

definition envNoTool :: env where
  "envNoTool = envOk\<lparr>listToolsResult := Inr [demoTool\<lparr>tool_name := ''search''\<rparr>]\<rparr>"

text \<open>A server that refuses every connection; the close calls reject too.\<close>

definition envAllFail :: env where
  "envAllFail =
     envOk\<lparr>connectError := (\<lambda>a. Some (''refused: '' @ label a)),
           clientCloseRejects := (\<lambda>l. True),
           transportCloseRejects := (\<lambda>l. True)\<rparr>"

text \<open>A server that refuses the streamable HTTP transport and accepts SSE.\<close>

definition envSseOnly :: env where
  "envSseOnly =
     envOk\<lparr>connectError := (\<lambda>a. if label a = streamableLabel then Some ''404'' else None),
           clientCloseRejects := (\<lambda>l. True)\<rparr>"

text \<open>The streamable HTTP factory throws (its URL does not parse); SSE would connect.\<close>

definition envFactoryThrows :: env where
  "envFactoryThrows =
     envOk\<lparr>factoryError := (\<lambda>a. if label a = streamableLabel then Some ''Invalid URL'' else None)\<rparr>"

text \<open>The two attempts of \<open>demoClient\<close>, whose preference is \<open>auto\<close>.\<close>

definition streamableAttempt :: attempt where
  "streamableAttempt =
     \<lparr>label = streamableLabel,
      create = StreamableHTTP ''http://h/mcp''
        [(''headers'', JObj [(''X-API-Key'', JStr ''key''),
                             (''Content-Type'', JStr ''application/json'')])]\<rparr>"

definition sseAttempt :: attempt where
  "sseAttempt =
     \<lparr>label = sseLabel,
      create = SSE ''http://h/mcp/sse'' [(''X-API-Key'', JStr ''key'')]
        [(''headers'', JObj [(''X-API-Key'', JStr ''key''),
                             (''Content-Type'', JStr ''application/json'')])]\<rparr>"

text \<open>\<open>demoClient\<close> with an attempt in flight, and with the handles of the streamable
  HTTP attempt stored.\<close>

definition demoPending :: session where
  "demoPending = demoClient\<lparr>connectPromise := Some Pending\<rparr>"

definition demoHalf :: session where
  "demoHalf = demoClient\<lparr>client := Some streamableLabel, transport := Some streamableLabel,
                 connectionLabel := streamableLabel\<rparr>"

text \<open>\<open>demoClient\<close> connected to the server of \<open>envOk\<close>, and the same with the product
  filter set to \<open>ACI\<close>.\<close>

definition demoConnected :: session where
  "demoConnected = demoHalf\<lparr>selectedTool := Some demoTool\<rparr>"

definition aciClient :: session where
  "aciClient = snd (setProductFilter (Some '' ACI '') demoConnected)"

text \<open>Schemas: an object schema with a string and a number property, one with two number
  properties, one with a single property, one with \<open>question\<close>, and a schema with a
  \<open>query\<close> property and no \<open>type\<close>.\<close>

definition abSchema :: jsval where
  "abSchema =
     JObj [(''type'', JStr ''object''),
           (''properties'', JObj [(''a'', JObj [(''type'', JStr ''string'')]),
                                  (''b'', JObj [(''type'', JStr ''number'')])])]"

definition numbersSchema :: jsval where
  "numbersSchema =
     JObj [(''type'', JStr ''object''),
           (''properties'', JObj [(''a'', JObj [(''type'', JStr ''number'')]),
                                  (''b'', JObj [(''type'', JStr ''number'')])])]"

definition onlyOneSchema :: jsval where
  "onlyOneSchema =
     JObj [(''type'', JStr ''object''),
           (''properties'', JObj [(''onlyOne'', JObj [(''type'', JStr ''number'')])])]"

definition questionSchema :: jsval where
  "questionSchema =
     JObj [(''type'', JStr ''object''),
           (''properties'', JObj [(''question'', JObj [(''type'', JStr ''string'')]),
                                  (''other'', JObj [(''type'', JStr ''string'')])])]"

definition untypedSchema :: jsval where
  "untypedSchema =
     JObj [(''properties'', JObj [(''query'', JObj [(''type'', JStr ''string'')])])]"

text \<open>Two more servers: one whose tool takes \<open>question\<close>, and one whose tool has two
  number properties, from which nothing is inferred.\<close>

definition envQuestion :: env where
  "envQuestion = envOk\<lparr>listToolsResult := Inr [demoTool\<lparr>inputSchema := questionSchema\<rparr>]\<rparr>"

definition envNumbers :: env where
  "envNumbers = envOk\<lparr>listToolsResult := Inr [demoTool\<lparr>inputSchema := numbersSchema\<rparr>]\<rparr>"

text \<open>A manager with the target \<open>A\<close> listed twice, the first time with a product
  configured.\<close>

definition demoManager :: manager where
  "demoManager =
     (case ChatTargetManager
             (Some [\<lparr>td_name = ''A'',
                     td_options = Some (demoOptions\<lparr>o_product := Some ''ACI''\<rparr>),
                     td_useProcessEnv = None\<rparr>,
                    \<lparr>td_name = ''A'', td_options = None, td_useProcessEnv = None\<rparr>])
      of Inr m \<Rightarrow> m
       | Inl err \<Rightarrow> \<lparr>targets = [], clients = [], defaultTargetName = [], store = []\<rparr>)"

section \<open>Facts about the concrete client\<close>

lemma demoClient_eq:
  "demoClient =
     \<lparr>sseUrl = ''http://h/mcp/sse'', streamableUrl = ''http://h/mcp'', apiKey = Some ''key'',
      toolName = ''ask_cisco_documentation'', transportPreference = ''auto'', staticArgs = [],
      productFilter = None, client = None, transport = None, connectionLabel = [],
      primaryArgKey = ''query'', selectedTool = None, connectPromise = None\<rparr>"
  by (simp add: demoClient_def demoOptions_def McpChatClient_def noProcess_def emptyOptions_def
      orElse_def DEFAULT_TOOL_NAME_def stripSseSuffix_def toLowerCase_def Let_def trim_def
      spread2_def safeParseJson_def)

lemma demo_attempts:
  "buildTransportAttempts (initOptionsOf demoClient) = [streamableAttempt, sseAttempt]"
  by (simp add: demoClient_eq initOptionsOf_def buildTransportAttempts_def Let_def spread2_def
      streamableAttempt_def sseAttempt_def streamableLabel_def sseLabel_def)

section \<open>Facts about objects\<close>

lemma map_of_setProp: "map_of (setProp k v obj) = (map_of obj)(k \<mapsto> v)"
  by (induction obj) (auto simp: fun_eq_iff)

lemma fst_set_setProp: "fst ` set (setProp k v obj) = insert k (fst ` set obj)"
  by (induction obj) force+

lemma getProp_setProp: "getProp (setProp k v obj) k' = (if k' = k then v else getProp obj k')"
  by (simp add: getProp_def map_of_setProp)

lemma map_of_fold_setProp:
  "distinct (map fst b) \<Longrightarrow>
   map_of (fold (\<lambda>(k, v) acc. setProp k v acc) b acc) = map_of acc ++ map_of b"
proof (induction b arbitrary: acc)
  case Nil
  then show ?case by simp
next
  case (Cons kv b)
  obtain k v where kv: "kv = (k, v)" by (cases kv)
  from Cons.prems kv have k: "map_of b k = None" and d: "distinct (map fst b)"
    by (auto simp: map_of_eq_None_iff)
  have A: "fold (\<lambda>(k, v) acc. setProp k v acc) (kv # b) acc
        = fold (\<lambda>(k, v) acc. setProp k v acc) b (setProp k v acc)"
    by (simp add: kv)
  have B: "map_of (fold (\<lambda>(k, v) acc. setProp k v acc) b (setProp k v acc))
        = map_of (setProp k v acc) ++ map_of b"
    by (rule Cons.IH [OF d])
  have C: "map_of (setProp k v acc) ++ map_of b = map_of acc ++ map_of (kv # b)"
  proof
    fix x
    show "(map_of (setProp k v acc) ++ map_of b) x = (map_of acc ++ map_of (kv # b)) x"
      using k by (cases "x = k") (simp_all add: kv map_of_setProp map_add_def split: option.splits)
  qed
  show ?case by (simp only: A B C)
qed

lemma fst_set_fold_setProp:
  "fst ` set (fold (\<lambda>(k, v) acc. setProp k v acc) b acc) = fst ` set acc \<union> fst ` set b"
proof (induction b arbitrary: acc)
  case Nil
  then show ?case by simp
next
  case (Cons kv b)
  show ?case
    using Cons.IH [of "setProp (fst kv) (snd kv) acc"]
    by (simp add: case_prod_beta fst_set_setProp)
qed

lemma getProp_spread2:
  "distinct (map fst a) \<Longrightarrow> distinct (map fst b) \<Longrightarrow>
   getProp (spread2 a b) k = (case map_of b k of Some v \<Rightarrow> v | None \<Rightarrow> getProp a k)"
  by (simp add: getProp_def spread2_def map_of_fold_setProp map_add_def split: option.splits)

lemma keys_spread2: "fst ` set (spread2 a b) = fst ` set a \<union> fst ` set b"
  by (simp add: spread2_def fst_set_fold_setProp)

section \<open>The loop of connectWithFallback\<close>

lemma tryAttempts_prefix:
  "list_all (connectFails e) pre \<Longrightarrow>
   tryAttempts e (pre @ rest) lastError =
     (case tryAttempts e rest
             (if pre = [] then lastError
              else Some (External (case connectError e (last pre) of None \<Rightarrow> [] | Some msg \<Rightarrow> msg)))
      of (r, evs) \<Rightarrow> (r, concat (map (failureEvents e) pre) @ evs))"
proof (induction pre arbitrary: lastError)
  case Nil
  then show ?case by (simp split: prod.splits)
next
  case (Cons a pre)
  then show ?case
    by (auto simp: connectFails_def failureEvents_def split: prod.splits option.splits)
qed

lemma tryAttempts_all_fail:
  assumes "list_all (connectFails e) as" "as \<noteq> []" "connectError e (last as) = Some msg"
  shows "tryAttempts e as None = (Inl (External msg), concat (map (failureEvents e) as))"
  using tryAttempts_prefix [OF assms(1), of "[]" None] assms(2,3) by simp

lemma tryAttempts_first_success:
  assumes "list_all (connectFails e) pre" "connects e a"
  shows "tryAttempts e (pre @ a # post) None =
           (Inr \<lparr>conn_client = label a, conn_transport = label a, conn_label = label a\<rparr>,
            concat (map (failureEvents e) pre) @
            [ClientCreated (label a), TransportCreated (label a), ConnectCalled (label a)])"
  using tryAttempts_prefix [OF assms(1), of "a # post" None] assms(2)
  by (simp add: connects_def)

section \<open>Transport selection: the attempts returned\<close>

text \<open>
  C7: \<open>buildTransportAttempts\<close> returns exactly one attempt, labelled with the forced
  transport, for each recognised forced preference (\<open>sse\<close>, \<open>streamable\<close>); for \<open>auto\<close>
  and for every unrecognised preference it returns exactly two attempts, the streamable
  HTTP transport (endpoint A) first and the SSE transport (endpoint B) second; so the list
  is never empty.
\<close>

theorem buildTransportAttempts_shape:
  "buildTransportAttempts io =
     (if io_transportPreference io = ''sse'' then
        [\<lparr>label = ''sse @ '' @ io_sseUrl io,
          create = SSE (io_sseUrl io) (headers io) (requestInit io)\<rparr>]
      else if io_transportPreference io = ''streamable'' then
        [\<lparr>label = ''streamable-http @ '' @ io_streamableUrl io,
          create = StreamableHTTP (io_streamableUrl io) (requestInit io)\<rparr>]
      else
        [\<lparr>label = ''streamable-http @ '' @ io_streamableUrl io,
          create = StreamableHTTP (io_streamableUrl io) (requestInit io)\<rparr>,
         \<lparr>label = ''sse @ '' @ io_sseUrl io,
          create = SSE (io_sseUrl io) (headers io) (requestInit io)\<rparr>])
   \<and> buildTransportAttempts io \<noteq> []
   \<and> length (buildTransportAttempts io) =
       (if io_transportPreference io \<in> {''sse'', ''streamable''} then 1 else 2)"
  by (simp add: buildTransportAttempts_def Let_def)

section \<open>Exhaustion of the transports\<close>

text \<open>
  C3 (as amended): when every transport attempt of the fallback sequence fails to connect,
  \<open>connect()\<close> fails with the last underlying error itself, the error of the last attempt,
  thrown as it is, and the client is as it was before the call: not connected, no promise
  kept, so that the next \<open>connect()\<close> runs the attempts again. The events are the failures
  of the attempts, in order.
\<close>

theorem connect_all_transports_failed:
  assumes "client s = None" and "connectPromise s = None" and "hasApiKey s"
    and "list_all (connectFails e) (buildTransportAttempts (initOptionsOf s))"
    and "connectError e (last (buildTransportAttempts (initOptionsOf s))) = Some msg"
  shows "connect e s =
           (Some (Inl (External msg)), s,
            concat (map (failureEvents e) (buildTransportAttempts (initOptionsOf s))))
         \<and> \<not> isConnected s
         \<and> (\<forall>e'. connect e' (fst (snd (connect e s))) = connect e' s)"
proof -
  let ?as = "buildTransportAttempts (initOptionsOf s)"
  let ?p = "s\<lparr>connectPromise := Some Pending\<rparr>"
  have io: "initOptionsOf ?p = initOptionsOf s"
    by (simp add: initOptionsOf_def)
  have ne: "?as \<noteq> []"
    by (simp add: buildTransportAttempts_def Let_def)
  have fb: "connectWithFallback e (initOptionsOf s) =
              (Inl (External msg), concat (map (failureEvents e) ?as))"
    using tryAttempts_all_fail [OF assms(4) ne assms(5)] ne
    by (simp add: connectWithFallback_def Let_def)
  have restore: "s\<lparr>connectPromise := None\<rparr> = s"
    using assms(2) by simp
  have tr: "connectInternal_transport e ?p =
              (Inl (External msg), s, concat (map (failureEvents e) ?as))"
    by (simp add: connectInternal_transport_def io fb restore)
  have key: "hasApiKey ?p"
    using assms(3) by (simp add: hasApiKey_def)
  have ci: "connectInternal e ?p = (Inl (External msg), s, concat (map (failureEvents e) ?as))"
    by (simp add: connectInternal_def key tr)
  have c: "connect e s =
             (Some (Inl (External msg)), s, concat (map (failureEvents e) ?as))"
    using assms(1,2) by (simp add: connect_def ci)
  show ?thesis
    using assms(1) by (simp add: c isConnected_def)
qed

lemma fails_demo: "list_all (connectFails envAllFail) [streamableAttempt, sseAttempt]"
  by (simp add: connectFails_def envAllFail_def envOk_def)

theorem connect_all_transports_failed_witness:
  "connect envAllFail demoClient =
     (Some (Inl (External (''refused: '' @ sseLabel))), demoClient,
      [ClientCreated streamableLabel, TransportCreated streamableLabel, ConnectCalled streamableLabel,
       Warned streamableLabel (''refused: '' @ streamableLabel),
       ClientClosed streamableLabel True, TransportClosed streamableLabel True,
       ClientCreated sseLabel, TransportCreated sseLabel, ConnectCalled sseLabel,
       Warned sseLabel (''refused: '' @ sseLabel),
       ClientClosed sseLabel True, TransportClosed sseLabel True])
   \<and> \<not> isConnected demoClient
   \<and> fst (connect envOk demoClient) = Some (Inr ())"
proof -
  have a: "client demoClient = None" "connectPromise demoClient = None" "hasApiKey demoClient"
    by (simp_all add: demoClient_eq hasApiKey_def)
  have b: "list_all (connectFails envAllFail) (buildTransportAttempts (initOptionsOf demoClient))"
    using fails_demo by (simp add: demo_attempts)
  have c: "connectError envAllFail (last (buildTransportAttempts (initOptionsOf demoClient)))
             = Some (''refused: '' @ sseLabel)"
    by (simp add: demo_attempts envAllFail_def envOk_def sseAttempt_def)
  have d: "fst (connect envOk demoClient) = Some (Inr ())"
    by (simp add: connect_def demoClient_eq connectInternal_def hasApiKey_def
        connectInternal_transport_def connectWithFallback_def
        buildTransportAttempts_def initOptionsOf_def Let_def envOk_def
        connectInternal_tools_def demoTool_def DEFAULT_TOOL_NAME_def)
  show ?thesis
    using connect_all_transports_failed [OF a b c] d
    by (simp add: demo_attempts failureEvents_def envAllFail_def envOk_def
        streamableAttempt_def sseAttempt_def)
qed

text \<open>
  C3 as stated fails in what is thrown: no error of its own wraps the last underlying
  error. When every attempt has failed to connect, \<open>connect()\<close> fails with the error of the
  last attempt as it is; the error \<open>All transports failed to connect.\<close> stands in only
  when no error was recorded.
\<close>

theorem exhaustion_rethrows_last_error:
  "fst (connect envAllFail demoClient) = Some (Inl (External (''refused: '' @ sseLabel)))
   \<and> fst (connect envAllFail demoClient) \<noteq> Some (Inl AllTransportsFailed)"
  by (simp add: connect_def demoClient_eq connectInternal_def hasApiKey_def
      connectInternal_transport_def connectWithFallback_def buildTransportAttempts_def
      initOptionsOf_def Let_def envAllFail_def envOk_def sseLabel_def)

section \<open>Fallback from a failed attempt\<close>

text \<open>
  The failures that the loop catches: every attempt whose connect call rejects is logged
  as a warning and does not end the sequence; its client and its transport have their
  close methods called before the next attempt is made, and a close that rejects changes
  nothing; the first attempt that connects gives the connection, and the label stored in
  the client is that attempt's label.
\<close>

lemma connectWithFallback_first_success:
  assumes "buildTransportAttempts (initOptionsOf s) = pre @ a # post"
    and "list_all (connectFails e) pre"
    and "connects e a"
  shows "connectWithFallback e (initOptionsOf s) =
           (Inr \<lparr>conn_client = label a, conn_transport = label a, conn_label = label a\<rparr>,
            concat (map (failureEvents e) pre) @
            [ClientCreated (label a), TransportCreated (label a), ConnectCalled (label a)])
       \<and> connectInternal_transport e s =
           (Inr (),
            s\<lparr>client := Some (label a), transport := Some (label a), connectionLabel := label a\<rparr>,
            concat (map (failureEvents e) pre) @
            [ClientCreated (label a), TransportCreated (label a), ConnectCalled (label a),
             ToolsListed (label a)])"
proof -
  have fb: "connectWithFallback e (initOptionsOf s) =
           (Inr \<lparr>conn_client = label a, conn_transport = label a, conn_label = label a\<rparr>,
            concat (map (failureEvents e) pre) @
            [ClientCreated (label a), TransportCreated (label a), ConnectCalled (label a)])"
    using tryAttempts_first_success [OF assms(2,3), of post] assms(1)
    by (simp add: connectWithFallback_def Let_def)
  show ?thesis
    by (simp add: fb connectInternal_transport_def)
qed

lemma connectWithFallback_first_success_demo:
  "connectWithFallback envSseOnly (initOptionsOf demoClient) =
     (Inr \<lparr>conn_client = sseLabel, conn_transport = sseLabel, conn_label = sseLabel\<rparr>,
      [ClientCreated streamableLabel, TransportCreated streamableLabel, ConnectCalled streamableLabel,
       Warned streamableLabel ''404'',
       ClientClosed streamableLabel True, TransportClosed streamableLabel False,
       ClientCreated sseLabel, TransportCreated sseLabel, ConnectCalled sseLabel])
   \<and> getConnectionLabel (fst (snd (connectInternal_transport envSseOnly demoClient))) = sseLabel"
proof -
  have a: "buildTransportAttempts (initOptionsOf demoClient) = [streamableAttempt] @ sseAttempt # []"
    by (simp add: demo_attempts)
  have b: "list_all (connectFails envSseOnly) [streamableAttempt]"
    by (simp add: connectFails_def envSseOnly_def envOk_def streamableAttempt_def)
  have c: "connects envSseOnly sseAttempt"
    by (simp add: connects_def envSseOnly_def envOk_def sseAttempt_def sseLabel_def streamableLabel_def)
  show ?thesis
    using connectWithFallback_first_success [OF a b c]
    by (simp add: failureEvents_def envSseOnly_def envOk_def streamableAttempt_def sseAttempt_def
        getConnectionLabel_def)
qed

text \<open>
  C4 on the code: the failure of a factory is not caught. \<open>attempt.create()\<close> is called
  before the \<open>try\<close> block, so with preference \<open>auto\<close> a streamable HTTP factory that throws
  ends \<open>connectWithFallback\<close>, and with it \<open>connect()\<close>, with that error: no warning is
  logged, no close method is called, and the SSE attempt, which would connect, is never
  made. The failure of a connect call in the same loop is warned about, torn down and
  followed by the next attempt (\<open>connectWithFallback_first_success\<close> above).
\<close>

theorem factory_failure_aborts_sequence:
  "buildTransportAttempts (initOptionsOf demoClient) = [streamableAttempt, sseAttempt]
   \<and> factoryError envFactoryThrows streamableAttempt = Some ''Invalid URL''
   \<and> connects envFactoryThrows sseAttempt
   \<and> connectWithFallback envFactoryThrows (initOptionsOf demoClient) =
       (Inl (External ''Invalid URL''), [ClientCreated streamableLabel])
   \<and> connect envFactoryThrows demoClient =
       (Some (Inl (External ''Invalid URL'')), demoClient, [ClientCreated streamableLabel])"
proof -
  have fb: "connectWithFallback envFactoryThrows (initOptionsOf demoClient) =
       (Inl (External ''Invalid URL''), [ClientCreated streamableLabel])"
    by (simp add: connectWithFallback_def demo_attempts envFactoryThrows_def envOk_def
        streamableAttempt_def)
  have io: "initOptionsOf (demoClient\<lparr>connectPromise := Some Pending\<rparr>) = initOptionsOf demoClient"
    by (simp add: initOptionsOf_def)
  have key: "hasApiKey (demoClient\<lparr>connectPromise := Some Pending\<rparr>)"
    by (simp add: hasApiKey_def demoClient_eq)
  have restore: "demoClient\<lparr>connectPromise := None\<rparr> = demoClient"
    by (simp add: demoClient_eq)
  have ci: "connectInternal envFactoryThrows (demoClient\<lparr>connectPromise := Some Pending\<rparr>) =
       (Inl (External ''Invalid URL''), demoClient, [ClientCreated streamableLabel])"
    by (simp add: connectInternal_def key connectInternal_transport_def io fb restore)
  have flds: "client demoClient = None" "connectPromise demoClient = None"
    by (simp_all add: demoClient_eq)
  have c: "connect envFactoryThrows demoClient =
       (Some (Inl (External ''Invalid URL'')), demoClient, [ClientCreated streamableLabel])"
    by (simp add: connect_def flds ci)
  have f: "factoryError envFactoryThrows streamableAttempt = Some ''Invalid URL''"
    by (simp add: envFactoryThrows_def envOk_def streamableAttempt_def)
  have k: "connects envFactoryThrows sseAttempt"
    by (simp add: connects_def envFactoryThrows_def envOk_def sseAttempt_def sseLabel_def
        streamableLabel_def)
  show ?thesis
    by (simp only: demo_attempts fb c f k simp_thms)
qed

section \<open>A server that does not list the tool\<close>

lemma noTool_transport:
  "connectInternal_transport envNoTool demoPending =
     (Inr (), demoHalf\<lparr>connectPromise := Some Pending\<rparr>,
      [ClientCreated streamableLabel, TransportCreated streamableLabel,
       ConnectCalled streamableLabel, ToolsListed streamableLabel])"
proof -
  have io: "initOptionsOf demoPending = initOptionsOf demoClient"
    by (simp add: initOptionsOf_def demoPending_def)
  have fb: "connectWithFallback envNoTool (initOptionsOf demoClient) =
      (Inr \<lparr>conn_client = streamableLabel, conn_transport = streamableLabel, conn_label = streamableLabel\<rparr>,
       [ClientCreated streamableLabel, TransportCreated streamableLabel, ConnectCalled streamableLabel])"
    by (simp add: connectWithFallback_def demo_attempts envNoTool_def envOk_def streamableAttempt_def)
  show ?thesis
    by (simp add: connectInternal_transport_def io fb) (simp add: demoPending_def demoHalf_def)
qed

lemma noTool_tools:
  "connectInternal_tools envNoTool (demoHalf\<lparr>connectPromise := Some Pending\<rparr>) =
     (Inl (ToolNotFound ''ask_cisco_documentation''), demoHalf)"
  by (simp add: connectInternal_tools_def envNoTool_def envOk_def demoTool_def demoHalf_def
      demoClient_eq)

lemma demoPending_key: "hasApiKey demoPending" "hasApiKey demoClient"
  by (simp_all add: hasApiKey_def demoPending_def demoClient_eq)

lemma demo_fields:
  "client demoClient = None" "connectPromise demoClient = None"
  "client demoHalf = Some streamableLabel" "selectedTool demoHalf = None"
  "connectPromise demoHalf = None"
  by (simp_all add: demoHalf_def demoClient_eq)

text \<open>In general: when the transports connect and the server's list has no tool of the
  configured name, the call fails and the handles stay stored.\<close>

lemma connect_tool_absent:
  assumes "client s = None" and "connectPromise s = None" and "hasApiKey s"
    and fb: "connectWithFallback e (initOptionsOf s) = (Inr c, evs)"
    and "listToolsResult e = Inr tools"
    and "find (\<lambda>t. tool_name t = toolName s) tools = None"
  shows "connect e s =
           (Some (Inl (ToolNotFound (toolName s))),
            s\<lparr>client := Some (conn_client c), transport := Some (conn_transport c),
              connectionLabel := conn_label c, selectedTool := None\<rparr>,
            evs @ [ToolsListed (conn_client c)])"
proof -
  let ?p = "s\<lparr>connectPromise := Some Pending\<rparr>"
  let ?h = "?p\<lparr>client := Some (conn_client c), transport := Some (conn_transport c),
              connectionLabel := conn_label c\<rparr>"
  have io: "initOptionsOf ?p = initOptionsOf s"
    by (simp add: initOptionsOf_def)
  have key: "hasApiKey ?p"
    using assms(3) by (simp add: hasApiKey_def)
  have t: "connectInternal_transport e ?p = (Inr (), ?h, evs @ [ToolsListed (conn_client c)])"
    by (simp add: connectInternal_transport_def io fb)
  have u: "connectInternal_tools e ?h =
             (Inl (ToolNotFound (toolName s)),
              s\<lparr>client := Some (conn_client c), transport := Some (conn_transport c),
                connectionLabel := conn_label c, selectedTool := None\<rparr>)"
    using assms(2,5,6) by (simp add: connectInternal_tools_def)
  have "connectInternal e ?p =
          (Inl (ToolNotFound (toolName s)),
           s\<lparr>client := Some (conn_client c), transport := Some (conn_transport c),
             connectionLabel := conn_label c, selectedTool := None\<rparr>,
           evs @ [ToolsListed (conn_client c)])"
    by (simp add: connectInternal_def key t u)
  then show ?thesis
    using assms(1,2) by (simp add: connect_def)
qed

text \<open>
  C1 on the code: the transports connect and the server lists no tool of the configured
  name. \<open>connect()\<close> fails with the tool-not-found error, but the client and transport
  handles and the label, stored before the tools are listed, stay stored:
  \<open>isConnected()\<close> is true, a later \<open>connect()\<close> returns at once without an attempt, and
  \<open>ask\<close> fails with \<open>Client is not connected.\<close>
\<close>

theorem connect_tool_absent_keeps_client:
  "connect envNoTool demoClient =
     (Some (Inl (ToolNotFound ''ask_cisco_documentation'')), demoHalf,
      [ClientCreated streamableLabel, TransportCreated streamableLabel,
       ConnectCalled streamableLabel, ToolsListed streamableLabel])
   \<and> isConnected demoHalf
   \<and> connect envOk demoHalf = (Some (Inr ()), demoHalf, [])
   \<and> ask envOk (Some ''hello'') [] demoHalf = (Some (Inl NotConnected), demoHalf, [])"
proof -
  have ci: "connectInternal envNoTool demoPending =
     (Inl (ToolNotFound ''ask_cisco_documentation''), demoHalf,
      [ClientCreated streamableLabel, TransportCreated streamableLabel,
       ConnectCalled streamableLabel, ToolsListed streamableLabel])"
    by (simp add: connectInternal_def demoPending_key noTool_transport noTool_tools)
  have c: "connect envNoTool demoClient =
     (Some (Inl (ToolNotFound ''ask_cisco_documentation'')), demoHalf,
      [ClientCreated streamableLabel, TransportCreated streamableLabel,
       ConnectCalled streamableLabel, ToolsListed streamableLabel])"
    using ci by (simp add: connect_def demo_fields demoPending_def)
  have t: "trim ''hello'' = ''hello''"
    by (simp add: trim_def isWhiteSpace_def)
  have d: "connect envOk demoHalf = (Some (Inr ()), demoHalf, [])"
    by (simp add: connect_def demo_fields)
  show ?thesis
    by (simp add: c d isConnected_def ask_def t demo_fields)
qed

section \<open>Single flight\<close>

text \<open>While the promise is pending and no client handle is stored, a call only joins the
  callers that await the promise.\<close>

lemma calls_while_pending:
  "connectPromise (m_session m) = Some Pending \<Longrightarrow> client (m_session m) = None \<Longrightarrow>
   run envs (map Call js) m = m\<lparr>m_waiting := m_waiting m @ js\<rparr>"
proof (induction js arbitrary: m)
  case Nil
  then show ?case by (simp add: run_def)
next
  case (Cons j js)
  have s: "step envs (Call j) m = m\<lparr>m_waiting := m_waiting m @ [j]\<rparr>"
    using Cons.prems by (simp add: step_def)
  have "run envs (map Call (j # js)) m = run envs (map Call js) (m\<lparr>m_waiting := m_waiting m @ [j]\<rparr>)"
    by (simp add: run_def s)
  also have "\<dots> = m\<lparr>m_waiting := m_waiting m @ [j]\<rparr>\<lparr>m_waiting := (m_waiting m @ [j]) @ js\<rparr>"
    using Cons.prems Cons.IH [of "m\<lparr>m_waiting := m_waiting m @ [j]\<rparr>"] by simp
  finally show ?case by simp
qed

lemma run_append: "run envs (xs @ ys) m = run envs ys (run envs xs m)"
  by (simp add: run_def)

text \<open>Callers that all call before the attempt in flight gives way a second time: one
  attempt sequence runs, and every caller has the outcome of that one run of
  \<open>#connectInternal\<close>.\<close>

lemma single_flight:
  assumes "hasApiKey s" and "client s = None" and "connectPromise s = None"
    and ci: "connectInternal (envs 1) (s\<lparr>connectPromise := Some Pending\<rparr>) = (r, s', evs)"
  shows "run envs (Call i # map Call js @ [Settle, Settle]) (fresh s) =
           \<lparr>m_session = s', m_phase = Idle, m_waiting = [],
            m_done = map (\<lambda>j. (j, r)) (i # js), m_sequences = 1, m_trace = evs\<rparr>"
proof -
  let ?p = "s\<lparr>connectPromise := Some Pending\<rparr>"
  let ?m1 = "\<lparr>m_session = ?p, m_phase = AwaitingTransport, m_waiting = [i], m_done = [],
              m_sequences = 1, m_trace = []\<rparr>"
  let ?m2 = "\<lparr>m_session = ?p, m_phase = AwaitingTransport, m_waiting = i # js, m_done = [],
              m_sequences = 1, m_trace = []\<rparr>"
  have key: "hasApiKey ?p"
    using assms(1) by (simp add: hasApiKey_def)
  have s1: "step envs (Call i) (fresh s) = ?m1"
    using assms(1-3) by (simp add: step_def fresh_def)
  have s2: "run envs (map Call js) ?m1 = ?m2"
    using calls_while_pending [of ?m1 envs js] assms(2) by simp
  have s3: "run envs [Settle, Settle] ?m2 =
           \<lparr>m_session = s', m_phase = Idle, m_waiting = [],
            m_done = map (\<lambda>j. (j, r)) (i # js), m_sequences = 1, m_trace = evs\<rparr>"
  proof -
    obtain r1 s1 evs1 where t: "connectInternal_transport (envs 1) ?p = (r1, s1, evs1)"
      by (cases "connectInternal_transport (envs 1) ?p") auto
    show ?thesis
    proof (cases r1)
      case (Inl err)
      with ci t key have "r = Inl err" "s' = s1" "evs = evs1"
        by (simp_all add: connectInternal_def)
      with t Inl show ?thesis
        by (simp add: run_def step_def)
    next
      case (Inr u)
      obtain r2 s2 where u: "connectInternal_tools (envs 1) s1 = (r2, s2)"
        by (cases "connectInternal_tools (envs 1) s1") auto
      with ci t key Inr have "r = r2" "s' = s2" "evs = evs1"
        by (simp_all add: connectInternal_def)
      with t Inr u show ?thesis
        by (simp add: run_def step_def)
    qed
  qed
  have "run envs (Call i # map Call js @ [Settle, Settle]) (fresh s)
        = run envs [Settle, Settle] (run envs (map Call js) (step envs (Call i) (fresh s)))"
    by (simp add: run_def)
  then show ?thesis
    by (simp only: s1 s2 s3)
qed

text \<open>After an attempt that has ended with no client handle stored, the next call starts
  a new attempt sequence.\<close>

lemma retry_starts_sequence:
  "m_phase m = Idle \<Longrightarrow> client (m_session m) = None \<Longrightarrow> connectPromise (m_session m) = None \<Longrightarrow>
   hasApiKey (m_session m) \<Longrightarrow>
   step envs (Call j) m =
     m\<lparr>m_session := (m_session m)\<lparr>connectPromise := Some Pending\<rparr>,
       m_phase := AwaitingTransport,
       m_waiting := m_waiting m @ [j],
       m_sequences := m_sequences m + 1\<rparr>"
  by (simp add: step_def)

text \<open>Every way out of the \<open>try\<close> block clears the promise.\<close>

lemma connectInternal_tools_promise:
  "connectInternal_tools e s = (r, s2) \<Longrightarrow> connectPromise s2 = None"
  by (auto simp: connectInternal_tools_def Let_def split: sum.splits option.splits)

lemma connectInternal_transport_promise:
  "connectInternal_transport e s = (Inl err, s1, evs) \<Longrightarrow> connectPromise s1 = None"
  by (auto simp: connectInternal_transport_def split: prod.splits sum.splits)

lemma connectInternal_promise:
  assumes "hasApiKey s" and "connectInternal e s = (r, s', evs)"
  shows "connectPromise s' = None"
proof -
  obtain r1 s1 evs1 where t: "connectInternal_transport e s = (r1, s1, evs1)"
    by (cases "connectInternal_transport e s") auto
  show ?thesis
  proof (cases r1)
    case (Inl err)
    with assms t have "s' = s1"
      by (simp add: connectInternal_def)
    with t Inl show ?thesis
      by (simp add: connectInternal_transport_promise)
  next
    case (Inr u)
    obtain r2 s2 where u: "connectInternal_tools e s1 = (r2, s2)"
      by (cases "connectInternal_tools e s1") auto
    with assms t Inr have "s' = s2"
      by (simp add: connectInternal_def)
    with u show ?thesis
      by (simp add: connectInternal_tools_promise)
  qed
qed

text \<open>One caller on the machine is \<open>connect\<close> run to its end.\<close>

lemma connect_is_run:
  assumes "connectPromise s \<noteq> Some Pending"
  shows "run envs [Call i, Settle, Settle] (fresh s) =
           (case connect (envs 1) s of
              (r, s', evs) \<Rightarrow>
                \<lparr>m_session = s', m_phase = Idle, m_waiting = [],
                 m_done = (case r of None \<Rightarrow> [] | Some x \<Rightarrow> [(i, x)]),
                 m_sequences = (if client s = None \<and> connectPromise s = None \<and> hasApiKey s then 1 else 0),
                 m_trace = evs\<rparr>)"
proof (cases "client s = None \<and> connectPromise s = None \<and> hasApiKey s")
  case True
  obtain r s' evs where ci: "connectInternal (envs 1) (s\<lparr>connectPromise := Some Pending\<rparr>) = (r, s', evs)"
    by (cases "connectInternal (envs 1) (s\<lparr>connectPromise := Some Pending\<rparr>)") auto
  have "hasApiKey (s\<lparr>connectPromise := Some Pending\<rparr>)"
    using True by (simp add: hasApiKey_def)
  then have np: "connectPromise s' = None"
    using ci by (rule connectInternal_promise)
  have "connect (envs 1) s = (Some r, s', evs)"
    using True ci np by (simp add: connect_def)
  with single_flight [of s envs r s' evs i "[]"] True ci show ?thesis
    by simp
next
  case False
  show ?thesis
  proof (cases "client s")
    case (Some c)
    then show ?thesis
      by (simp add: run_def step_def fresh_def connect_def)
  next
    case None
    note nc = None
    show ?thesis
    proof (cases "connectPromise s")
      case (Some p)
      with assms nc show ?thesis
        by (cases p) (simp_all add: run_def step_def fresh_def connect_def)
    next
      case None
      with False nc have k: "\<not> hasApiKey s"
        by simp
      then have "\<not> hasApiKey (s\<lparr>connectPromise := Some Pending\<rparr>)"
        by (simp add: hasApiKey_def)
      with k nc None show ?thesis
        by (simp add: run_def step_def fresh_def connect_def connectInternal_def settled_def)
    qed
  qed
qed

text \<open>Without an API key the promise of \<open>#connectInternal\<close> is rejected before the \<open>try\<close>
  block, stays in \<open>connectPromise\<close>, and answers every later call, also after a key has
  been set.\<close>

lemma connect_missing_key:
  assumes "client s = None" and "connectPromise s = None" and "\<not> hasApiKey s"
  shows "connect e s = (Some (Inl MissingApiKey), s\<lparr>connectPromise := Some (Rejected MissingApiKey)\<rparr>, [])"
    and "connect e' (s\<lparr>connectPromise := Some (Rejected MissingApiKey), apiKey := Some k\<rparr>) =
           (Some (Inl MissingApiKey),
            s\<lparr>connectPromise := Some (Rejected MissingApiKey), apiKey := Some k\<rparr>, [])"
proof -
  have "\<not> hasApiKey (s\<lparr>connectPromise := Some Pending\<rparr>)"
    using assms(3) by (simp add: hasApiKey_def)
  then show "connect e s =
      (Some (Inl MissingApiKey), s\<lparr>connectPromise := Some (Rejected MissingApiKey)\<rparr>, [])"
    using assms(1,2) by (simp add: connect_def connectInternal_def settled_def)
  show "connect e' (s\<lparr>connectPromise := Some (Rejected MissingApiKey), apiKey := Some k\<rparr>) =
           (Some (Inl MissingApiKey),
            s\<lparr>connectPromise := Some (Rejected MissingApiKey), apiKey := Some k\<rparr>, [])"
    using assms(1) by (simp add: connect_def)
qed

text \<open>
  C2 on the code: callers that all call before the transport connection is stored share
  one attempt sequence and its outcome (\<open>single_flight\<close> above), but not the callers that
  come later. Caller 0 calls \<open>connect()\<close>, the transport connects, caller 1 calls
  \<open>connect()\<close> while \<open>listTools\<close> is pending, and the server lists no tool of the configured
  name. One attempt sequence runs, but caller 1 returns at once with success (the client
  handle is already stored) while caller 0 fails with the tool-not-found error.
\<close>

theorem interleaved_connect_outcomes_differ:
  "run (\<lambda>n. envNoTool) [Call 0, Settle, Call 1, Settle] (fresh demoClient) =
     \<lparr>m_session = demoHalf, m_phase = Idle, m_waiting = [],
      m_done = [(1, Inr ()), (0, Inl (ToolNotFound ''ask_cisco_documentation''))],
      m_sequences = 1,
      m_trace = [ClientCreated streamableLabel, TransportCreated streamableLabel,
                 ConnectCalled streamableLabel, ToolsListed streamableLabel]\<rparr>"
proof -
  have s1: "step (\<lambda>n. envNoTool) (Call 0) (fresh demoClient) =
      \<lparr>m_session = demoPending, m_phase = AwaitingTransport, m_waiting = [0], m_done = [],
       m_sequences = 1, m_trace = []\<rparr>"
    by (simp add: step_def fresh_def demo_fields demoPending_key demoPending_def)
  have s2: "step (\<lambda>n. envNoTool) Settle
      \<lparr>m_session = demoPending, m_phase = AwaitingTransport, m_waiting = [0], m_done = [],
       m_sequences = 1, m_trace = []\<rparr> =
      \<lparr>m_session = demoHalf\<lparr>connectPromise := Some Pending\<rparr>, m_phase = AwaitingTools,
       m_waiting = [0], m_done = [], m_sequences = 1,
       m_trace = [ClientCreated streamableLabel, TransportCreated streamableLabel,
                 ConnectCalled streamableLabel, ToolsListed streamableLabel]\<rparr>"
    by (simp add: step_def noTool_transport)
  have s3: "step (\<lambda>n. envNoTool) (Call 1)
      \<lparr>m_session = demoHalf\<lparr>connectPromise := Some Pending\<rparr>, m_phase = AwaitingTools,
       m_waiting = [0], m_done = [], m_sequences = 1,
       m_trace = [ClientCreated streamableLabel, TransportCreated streamableLabel,
                 ConnectCalled streamableLabel, ToolsListed streamableLabel]\<rparr> =
      \<lparr>m_session = demoHalf\<lparr>connectPromise := Some Pending\<rparr>, m_phase = AwaitingTools,
       m_waiting = [0], m_done = [(1, Inr ())], m_sequences = 1,
       m_trace = [ClientCreated streamableLabel, TransportCreated streamableLabel,
                 ConnectCalled streamableLabel, ToolsListed streamableLabel]\<rparr>"
    by (simp add: step_def demo_fields)
  have s4: "step (\<lambda>n. envNoTool) Settle
      \<lparr>m_session = demoHalf\<lparr>connectPromise := Some Pending\<rparr>, m_phase = AwaitingTools,
       m_waiting = [0], m_done = [(1, Inr ())], m_sequences = 1,
       m_trace = [ClientCreated streamableLabel, TransportCreated streamableLabel,
                 ConnectCalled streamableLabel, ToolsListed streamableLabel]\<rparr> =
      \<lparr>m_session = demoHalf, m_phase = Idle, m_waiting = [],
      m_done = [(1, Inr ()), (0, Inl (ToolNotFound ''ask_cisco_documentation''))],
      m_sequences = 1,
      m_trace = [ClientCreated streamableLabel, TransportCreated streamableLabel,
                 ConnectCalled streamableLabel, ToolsListed streamableLabel]\<rparr>"
    by (simp add: step_def noTool_tools)
  show ?thesis
    by (simp only: run_def fold.simps o_apply id_apply s1 s2 s3 s4)
qed

section \<open>Inference of the primary argument\<close>

lemma remdups_single: "remdups xs = [k] \<longleftrightarrow> set xs = {k}"
proof
  assume "remdups xs = [k]"
  then have "set (remdups xs) = {k}" by simp
  then show "set xs = {k}" by simp
next
  assume s: "set xs = {k}"
  have "length (remdups xs) = card (set xs)"
    by (simp add: length_remdups_card_conv)
  with s have "length (remdups xs) = 1" by simp
  then obtain y where y: "remdups xs = [y]"
    by (cases "remdups xs") auto
  then have "set (remdups xs) = {y}" by simp
  with s have "y = k" by simp
  with y show "remdups xs = [k]" by simp
qed

lemma case_single:
  "(case xs of [] \<Rightarrow> d | [k] \<Rightarrow> f k | k # l # r \<Rightarrow> d) =
     (if \<exists>k. xs = [k] then f (hd xs) else d)"
  by (cases xs) (auto split: list.splits)

lemma remdups_not_single: "(\<exists>k. remdups xs = [k]) \<longleftrightarrow> card (set xs) = 1"
  by (auto simp: remdups_single card_1_singleton_iff)

text \<open>
  C5 (as amended): the inference is a function of the input schema alone. For a schema
  whose type is \<open>object\<close> it selects \<open>query\<close> if the properties have a truthy entry of that
  name; else \<open>question\<close> likewise; else the only property, if there is exactly one; else the
  only property whose type is \<open>string\<close>, if there is exactly one; otherwise, and for a
  schema that is missing or whose type is not \<open>object\<close>, nothing is inferred. On a
  connection the inferred key is stored, and the key the client had is kept when nothing
  is inferred; a new client has the key \<open>query\<close>.
\<close>

theorem pickPrimaryArgument_rule:
  "(\<not> truthy schema \<or> propOf schema ''type'' \<noteq> JStr ''object'' \<longrightarrow>
      pickPrimaryArgument schema = None)
   \<and> (truthy schema \<and> propOf schema ''type'' = JStr ''object'' \<longrightarrow>
      (truthy (getProp (schemaProps schema) ''query'') \<longrightarrow>
         pickPrimaryArgument schema = Some ''query'')
    \<and> (\<not> truthy (getProp (schemaProps schema) ''query'') \<and>
        truthy (getProp (schemaProps schema) ''question'') \<longrightarrow>
         pickPrimaryArgument schema = Some ''question'')
    \<and> (\<not> truthy (getProp (schemaProps schema) ''query'') \<and>
        \<not> truthy (getProp (schemaProps schema) ''question'') \<longrightarrow>
         (\<forall>k. fst ` set (schemaProps schema) = {k} \<longrightarrow> pickPrimaryArgument schema = Some k)
       \<and> (card (fst ` set (schemaProps schema)) \<noteq> 1 \<longrightarrow>
            (\<forall>k. {x \<in> fst ` set (schemaProps schema). stringTyped (schemaProps schema) x} = {k} \<longrightarrow>
                 pickPrimaryArgument schema = Some k)
          \<and> (card {x \<in> fst ` set (schemaProps schema). stringTyped (schemaProps schema) x} \<noteq> 1 \<longrightarrow>
                 pickPrimaryArgument schema = None))))
   \<and> (listToolsResult e = Inr tools \<and> find (\<lambda>t. tool_name t = toolName s) tools = Some t \<longrightarrow>
        connectInternal_tools e s =
          (Inr (),
           s\<lparr>selectedTool := Some t,
             primaryArgKey := (case pickPrimaryArgument (inputSchema t) of
                                 None \<Rightarrow> primaryArgKey s | Some k \<Rightarrow> k),
             connectPromise := None\<rparr>))
   \<and> primaryArgKey (McpChatClient pr options) = ''query''"
proof -
  let ?P = "schemaProps schema"
  let ?ks = "map fst ?P"
  let ?str = "filter (stringTyped ?P) (remdups ?ks)"
  have str: "?str = remdups (filter (stringTyped ?P) ?ks)"
    by (simp add: remdups_filter)
  have strset: "set (filter (stringTyped ?P) ?ks) = {x \<in> fst ` set ?P. stringTyped ?P x}"
    by auto
  have pick: "truthy schema \<Longrightarrow> propOf schema ''type'' = JStr ''object'' \<Longrightarrow>
      \<not> truthy (getProp ?P ''query'') \<Longrightarrow> \<not> truthy (getProp ?P ''question'') \<Longrightarrow>
      pickPrimaryArgument schema =
        (if \<exists>k. remdups ?ks = [k] then Some (hd (remdups ?ks))
         else if \<exists>k. ?str = [k] then Some (hd ?str) else None)"
    by (simp add: pickPrimaryArgument_def Let_def objectKeys_def case_single
        stringTyped_def [abs_def])
  show ?thesis
  proof (intro conjI impI allI)
    show "primaryArgKey (McpChatClient pr options) = ''query''"
      by (simp add: McpChatClient_def Let_def)
  next
    assume "listToolsResult e = Inr tools \<and> find (\<lambda>t. tool_name t = toolName s) tools = Some t"
    then show "connectInternal_tools e s =
          (Inr (),
           s\<lparr>selectedTool := Some t,
             primaryArgKey := (case pickPrimaryArgument (inputSchema t) of
                                 None \<Rightarrow> primaryArgKey s | Some k \<Rightarrow> k),
             connectPromise := None\<rparr>)"
      by (simp add: connectInternal_tools_def Let_def split: option.splits)
  next
    assume "\<not> truthy schema \<or> propOf schema ''type'' \<noteq> JStr ''object''"
    then show "pickPrimaryArgument schema = None"
      by (auto simp: pickPrimaryArgument_def)
  next
    assume "truthy schema \<and> propOf schema ''type'' = JStr ''object''"
      and "truthy (getProp ?P ''query'')"
    then show "pickPrimaryArgument schema = Some ''query''"
      by (simp add: pickPrimaryArgument_def Let_def)
  next
    assume "truthy schema \<and> propOf schema ''type'' = JStr ''object''"
      and "\<not> truthy (getProp ?P ''query'') \<and> truthy (getProp ?P ''question'')"
    then show "pickPrimaryArgument schema = Some ''question''"
      by (simp add: pickPrimaryArgument_def Let_def)
  next
    fix k
    assume a: "truthy schema \<and> propOf schema ''type'' = JStr ''object''"
      and b: "\<not> truthy (getProp ?P ''query'') \<and> \<not> truthy (getProp ?P ''question'')"
      and c: "fst ` set ?P = {k}"
    from c have "remdups ?ks = [k]" by (simp add: remdups_single)
    with pick a b show "pickPrimaryArgument schema = Some k" by simp
  next
    fix k
    assume a: "truthy schema \<and> propOf schema ''type'' = JStr ''object''"
      and b: "\<not> truthy (getProp ?P ''query'') \<and> \<not> truthy (getProp ?P ''question'')"
      and c: "card (fst ` set ?P) \<noteq> 1"
      and d: "{x \<in> fst ` set ?P. stringTyped ?P x} = {k}"
    from c have n: "\<not> (\<exists>k. remdups ?ks = [k])" by (simp add: remdups_not_single)
    from d have "?str = [k]" unfolding str by (simp only: remdups_single strset)
    with pick a b n show "pickPrimaryArgument schema = Some k" by simp
  next
    assume a: "truthy schema \<and> propOf schema ''type'' = JStr ''object''"
      and b: "\<not> truthy (getProp ?P ''query'') \<and> \<not> truthy (getProp ?P ''question'')"
      and c: "card (fst ` set ?P) \<noteq> 1"
      and d: "card {x \<in> fst ` set ?P. stringTyped ?P x} \<noteq> 1"
    from c have n: "\<not> (\<exists>k. remdups ?ks = [k])" by (simp add: remdups_not_single)
    from d have "\<not> (\<exists>k. ?str = [k])" unfolding str by (simp only: remdups_not_single strset not_False_eq_True)
    with pick a b n show "pickPrimaryArgument schema = None" by simp
  qed
qed

theorem pickPrimaryArgument_rule_witness:
  "pickPrimaryArgument querySchema = Some ''query''
   \<and> pickPrimaryArgument questionSchema = Some ''question''
   \<and> pickPrimaryArgument onlyOneSchema = Some ''onlyOne''
   \<and> pickPrimaryArgument abSchema = Some ''a''
   \<and> pickPrimaryArgument numbersSchema = None
   \<and> pickPrimaryArgument JUndefined = None
   \<and> connectInternal_tools envOk demoClient =
       (Inr (), demoClient\<lparr>selectedTool := Some demoTool, primaryArgKey := ''query'',
                            connectPromise := None\<rparr>)"
proof -
  have q: "pickPrimaryArgument querySchema = Some ''query''"
    using pickPrimaryArgument_rule [of querySchema]
    by (simp add: querySchema_def schemaProps_def propOf_def ownProps_def getProp_def)
  have qu: "pickPrimaryArgument questionSchema = Some ''question''"
    using pickPrimaryArgument_rule [of questionSchema]
    by (simp add: questionSchema_def schemaProps_def propOf_def ownProps_def getProp_def)
  have one: "pickPrimaryArgument onlyOneSchema = Some ''onlyOne''"
    using pickPrimaryArgument_rule [of onlyOneSchema]
    by (simp add: onlyOneSchema_def schemaProps_def propOf_def ownProps_def getProp_def)
  have abt: "truthy abSchema \<and> propOf abSchema ''type'' = JStr ''object''"
    by (simp add: abSchema_def propOf_def ownProps_def getProp_def)
  have abq: "\<not> truthy (getProp (schemaProps abSchema) ''query'') \<and>
             \<not> truthy (getProp (schemaProps abSchema) ''question'')"
    by (simp add: abSchema_def schemaProps_def propOf_def ownProps_def getProp_def)
  have ab1: "card (fst ` set (schemaProps abSchema)) \<noteq> 1"
    by (simp add: abSchema_def schemaProps_def propOf_def ownProps_def getProp_def)
  have ab2: "{x \<in> fst ` set (schemaProps abSchema). stringTyped (schemaProps abSchema) x} = {''a''}"
    by (auto simp: abSchema_def schemaProps_def propOf_def ownProps_def getProp_def stringTyped_def)
  have ab: "pickPrimaryArgument abSchema = Some ''a''"
    using pickPrimaryArgument_rule [of abSchema] abt abq ab1 ab2 by blast
  have nt: "truthy numbersSchema \<and> propOf numbersSchema ''type'' = JStr ''object''"
    by (simp add: numbersSchema_def propOf_def ownProps_def getProp_def)
  have nq: "\<not> truthy (getProp (schemaProps numbersSchema) ''query'') \<and>
            \<not> truthy (getProp (schemaProps numbersSchema) ''question'')"
    by (simp add: numbersSchema_def schemaProps_def propOf_def ownProps_def getProp_def)
  have n1: "card (fst ` set (schemaProps numbersSchema)) \<noteq> 1"
    by (simp add: numbersSchema_def schemaProps_def propOf_def ownProps_def getProp_def)
  have n0: "{x \<in> fst ` set (schemaProps numbersSchema). stringTyped (schemaProps numbersSchema) x} = {}"
    by (auto simp: numbersSchema_def schemaProps_def propOf_def ownProps_def getProp_def stringTyped_def)
  have n2: "card {x \<in> fst ` set (schemaProps numbersSchema).
                   stringTyped (schemaProps numbersSchema) x} \<noteq> 1"
    unfolding n0 by simp
  have num: "pickPrimaryArgument numbersSchema = None"
    using pickPrimaryArgument_rule [of numbersSchema] nt nq n1 n2 by blast
  have un: "pickPrimaryArgument JUndefined = None"
    using pickPrimaryArgument_rule [of JUndefined] by simp
  have tl: "connectInternal_tools envOk demoClient =
       (Inr (), demoClient\<lparr>selectedTool := Some demoTool, primaryArgKey := ''query'',
                            connectPromise := None\<rparr>)"
    using pickPrimaryArgument_rule [of querySchema envOk "[demoTool]" demoClient demoTool] q
    by (simp add: envOk_def demoTool_def demoClient_eq DEFAULT_TOOL_NAME_def)
  show ?thesis
    by (simp only: q qu one ab num un tl simp_thms)
qed

text \<open>
  C5 as stated fails on a schema that has a \<open>query\<close> property and no type \<open>object\<close>: nothing
  is inferred. It also fails on an object schema whose \<open>query\<close> entry is the boolean schema
  \<open>false\<close>: the entry is passed over.
\<close>

theorem pickPrimaryArgument_guarded:
  "pickPrimaryArgument untypedSchema = None
   \<and> propOf untypedSchema ''properties'' = JObj [(''query'', JObj [(''type'', JStr ''string'')])]
   \<and> pickPrimaryArgument
        (JObj [(''type'', JStr ''object''),
               (''properties'', JObj [(''query'', JBool False),
                                      (''other'', JObj [(''type'', JStr ''string'')]),
                                      (''n'', JObj [(''type'', JStr ''number'')])])])
       = Some ''other''"
  by (simp add: pickPrimaryArgument_def untypedSchema_def propOf_def ownProps_def getProp_def
      schemaProps_def objectKeys_def Let_def)

section \<open>The arguments of a tool call\<close>

lemma ask_connected:
  assumes "trim q \<noteq> []"
    and "(if client s = None then connect e s else (Some (Inr ()), s, [])) = (Some (Inr ()), s1, evs)"
    and "client s1 \<noteq> None" and "selectedTool s1 \<noteq> None"
  shows "ask e (Some q) overrides s =
     (let args1 = setProp (primaryArgKey s1) (JStr (trim q)) (spread2 (staticArgs s1) overrides);
          args2 = (case productFilter s1 of
                     None \<Rightarrow> args1
                   | Some pf \<Rightarrow>
                       if pf \<noteq> [] \<and> \<not> truthy (getProp args1 ''product'')
                       then setProp ''product'' (JStr pf) args1 else args1)
      in (Some (case callToolResult e (toolName s1) args2 of
                  Inl msg \<Rightarrow> Inl (External msg) | Inr v \<Rightarrow> Inr v),
          s1, evs @ [ToolCalled (toolName s1) args2]))"
  using assms by (simp add: ask_def Let_def)

lemma getProp_merged:
  assumes "distinct (map fst (staticArgs s))" and "distinct (map fst overrides)"
  shows "getProp (setProp (primaryArgKey s) (JStr t) (spread2 (staticArgs s) overrides)) k
         = mergedArg s t overrides k"
  using assms by (simp add: getProp_setProp getProp_spread2 mergedArg_def)

text \<open>
  C6 (as amended): for a question that is not empty after trimming, \<open>ask\<close> calls the tool
  with arguments in which the trimmed question, under the primary key, takes precedence
  over the caller's overrides, and these over the static arguments; the product filter is
  then assigned to \<open>product\<close> only if a filter is set and no argument named \<open>product\<close> with
  a truthy value is present; with the filter cleared, no \<open>product\<close> argument is added: the
  keys are those of the static arguments, the overrides and the primary key.
\<close>

theorem ask_arguments:
  assumes "trim q \<noteq> []"
    and "(if client s = None then connect e s else (Some (Inr ()), s, [])) = (Some (Inr ()), s1, evs)"
    and "client s1 \<noteq> None" and "selectedTool s1 \<noteq> None"
    and "distinct (map fst (staticArgs s1))" and "distinct (map fst overrides)"
  shows "\<exists>args.
           ask e (Some q) overrides s =
             (Some (case callToolResult e (toolName s1) args of
                      Inl msg \<Rightarrow> Inl (External msg) | Inr v \<Rightarrow> Inr v),
              s1, evs @ [ToolCalled (toolName s1) args])
         \<and> (\<forall>k. getProp args k =
                  (if k = ''product'' \<and> filterAdded s1 (trim q) overrides
                   then (case productFilter s1 of None \<Rightarrow> JUndefined | Some pf \<Rightarrow> JStr pf)
                   else mergedArg s1 (trim q) overrides k))
         \<and> fst ` set args =
             fst ` set (staticArgs s1) \<union> fst ` set overrides \<union> {primaryArgKey s1} \<union>
             (if filterAdded s1 (trim q) overrides then {''product''} else {})"
proof -
  let ?args1 = "setProp (primaryArgKey s1) (JStr (trim q)) (spread2 (staticArgs s1) overrides)"
  have g1: "\<And>k. getProp ?args1 k = mergedArg s1 (trim q) overrides k"
    using assms(5,6) by (rule getProp_merged)
  have k1: "fst ` set ?args1 =
      fst ` set (staticArgs s1) \<union> fst ` set overrides \<union> {primaryArgKey s1}"
    by (auto simp: fst_set_setProp keys_spread2)
  show ?thesis
  proof (cases "filterAdded s1 (trim q) overrides")
    case True
    then obtain pf where pf: "productFilter s1 = Some pf" "pf \<noteq> []"
      "\<not> truthy (mergedArg s1 (trim q) overrides ''product'')"
      by (auto simp: filterAdded_def split: option.splits)
    have a: "ask e (Some q) overrides s =
             (Some (case callToolResult e (toolName s1) (setProp ''product'' (JStr pf) ?args1) of
                      Inl msg \<Rightarrow> Inl (External msg) | Inr v \<Rightarrow> Inr v),
              s1, evs @ [ToolCalled (toolName s1) (setProp ''product'' (JStr pf) ?args1)])"
      using ask_connected [OF assms(1-4), of overrides] pf by (simp add: Let_def g1)
    have g2: "\<And>k. getProp (setProp ''product'' (JStr pf) ?args1) k =
                  (if k = ''product'' then JStr pf else mergedArg s1 (trim q) overrides k)"
      by (simp only: getProp_setProp [of "''product''"] g1)
    have k2: "fst ` set (setProp ''product'' (JStr pf) ?args1) =
                fst ` set (staticArgs s1) \<union> fst ` set overrides \<union> {primaryArgKey s1} \<union> {''product''}"
      by (simp only: fst_set_setProp [of "''product''"] k1) simp
    show ?thesis
      apply (rule exI [of _ "setProp ''product'' (JStr pf) ?args1"])
      using True pf by (simp add: a g2 k2)
  next
    case False
    have a: "ask e (Some q) overrides s =
             (Some (case callToolResult e (toolName s1) ?args1 of
                      Inl msg \<Rightarrow> Inl (External msg) | Inr v \<Rightarrow> Inr v),
              s1, evs @ [ToolCalled (toolName s1) ?args1])"
      using ask_connected [OF assms(1-4), of overrides] False
      by (auto simp: Let_def g1 filterAdded_def split: option.splits)
    show ?thesis
      apply (rule exI [of _ ?args1])
      using False k1 by (simp add: a g1)
  qed
qed

lemma aciClient_eq:
  "aciClient =
     \<lparr>sseUrl = ''http://h/mcp/sse'', streamableUrl = ''http://h/mcp'', apiKey = Some ''key'',
      toolName = ''ask_cisco_documentation'', transportPreference = ''auto'', staticArgs = [],
      productFilter = Some ''ACI'', client = Some streamableLabel,
      transport = Some streamableLabel, connectionLabel = streamableLabel,
      primaryArgKey = ''query'', selectedTool = Some demoTool, connectPromise = None\<rparr>"
  by (simp add: aciClient_def setProductFilter_def demoConnected_def demoHalf_def demoClient_eq
      trim_def isWhiteSpace_def Let_def)

theorem ask_arguments_witness:
  "\<exists>args. ask envOk (Some '' x '') [(''product'', JStr ''NX''), (''lang'', JStr ''en'')] aciClient =
            (Some (Inr (JObj [(''content'', JArr [])])), aciClient,
             [ToolCalled ''ask_cisco_documentation'' args])
        \<and> getProp args ''query'' = JStr ''x''
        \<and> getProp args ''product'' = JStr ''NX''
        \<and> getProp args ''lang'' = JStr ''en''
        \<and> fst ` set args = {''product'', ''lang'', ''query''}"
proof -
  let ?ov = "[(''product'', JStr ''NX''), (''lang'', JStr ''en'')]"
  have t: "trim '' x '' = ''x''"
    by (simp add: trim_def isWhiteSpace_def)
  have h1: "trim '' x '' \<noteq> []"
    by (simp add: t)
  have h2: "(if client aciClient = None then connect envOk aciClient
             else (Some (Inr ()), aciClient, [])) = (Some (Inr ()), aciClient, [])"
    by (simp add: aciClient_eq)
  have h3: "client aciClient \<noteq> None" and h4: "selectedTool aciClient \<noteq> None"
    and h5: "distinct (map fst (staticArgs aciClient))"
    by (simp_all add: aciClient_eq)
  have h6: "distinct (map fst ?ov)"
    by simp
  have fa: "\<not> filterAdded aciClient ''x'' ?ov"
    by (simp add: filterAdded_def mergedArg_def aciClient_eq)
  from ask_arguments [OF h1 h2 h3 h4 h5 h6]
  obtain args where
    a: "ask envOk (Some '' x '') ?ov aciClient =
          (Some (case callToolResult envOk (toolName aciClient) args of
                   Inl msg \<Rightarrow> Inl (External msg) | Inr v \<Rightarrow> Inr v),
           aciClient, [] @ [ToolCalled (toolName aciClient) args])"
    and g: "\<And>k. getProp args k =
                  (if k = ''product'' \<and> filterAdded aciClient (trim '' x '') ?ov
                   then (case productFilter aciClient of None \<Rightarrow> JUndefined | Some pf \<Rightarrow> JStr pf)
                   else mergedArg aciClient (trim '' x '') ?ov k)"
    and ks: "fst ` set args =
             fst ` set (staticArgs aciClient) \<union> fst ` set ?ov \<union> {primaryArgKey aciClient} \<union>
             (if filterAdded aciClient (trim '' x '') ?ov then {''product''} else {})"
    by blast
  have a': "ask envOk (Some '' x '') ?ov aciClient =
            (Some (Inr (JObj [(''content'', JArr [])])), aciClient,
             [ToolCalled ''ask_cisco_documentation'' args])"
    using a by (simp add: envOk_def aciClient_eq)
  have "getProp args ''query'' = JStr ''x''"
    and "getProp args ''product'' = JStr ''NX''"
    and "getProp args ''lang'' = JStr ''en''"
    using fa by (simp_all add: g t mergedArg_def aciClient_eq)
  moreover have "staticArgs aciClient = []" and "primaryArgKey aciClient = ''query''"
    by (simp_all add: aciClient_eq)
  then have "fst ` set args = {''product'', ''lang'', ''query''}"
    using fa by (auto simp: ks t)
  ultimately show ?thesis
    using a' by blast
qed

text \<open>
  C6 as stated fails when an argument named \<open>product\<close> is present with a falsy value: the
  caller overrides \<open>product\<close> with the empty string, and \<open>ask\<close> still assigns the filter.
\<close>

theorem ask_overwrites_blank_product:
  "map_of [(''product'', JStr [])] ''product'' = Some (JStr [])
   \<and> ask envOk (Some ''x'') [(''product'', JStr [])] aciClient =
       (Some (Inr (JObj [(''content'', JArr [])])), aciClient,
        [ToolCalled ''ask_cisco_documentation''
           [(''product'', JStr ''ACI''), (''query'', JStr ''x'')]])"
  by (simp add: ask_def aciClient_eq trim_def isWhiteSpace_def spread2_def getProp_def envOk_def
      Let_def)

section \<open>The target manager\<close>

lemma find_hasTarget:
  "hasTarget m name \<longleftrightarrow> find (\<lambda>t. t_name t = name) (targets m) \<noteq> None"
  by (auto simp: hasTarget_def list_ex_iff find_None_iff)

text \<open>
  C8: \<open>getClient\<close> with no name is \<open>getClient\<close> with the default target's name; a name
  that no target has fails with the unknown-target error and changes nothing; for a name
  that a target has (listed once or more) the call returns the client bound to the name,
  building it, from the first target of that name, only when the name is not bound yet;
  afterwards every call for that name returns the same client and builds nothing, whatever
  has happened to the clients in the store (a failed connection included); and a cache
  that holds one client for each bound name stays so.
\<close>

theorem getClient_cached:
  "getClient pr None m = getClient pr (Some (defaultTargetName m)) m
   \<and> (\<not> hasTarget m name \<longrightarrow> getClient pr (Some name) m = (Inl (UnknownTarget name), m))
   \<and> (\<forall>tg. find (\<lambda>t. t_name t = name) (targets m) = Some tg \<longrightarrow>
        (\<exists>a m'. getClient pr (Some name) m = (Inr a, m')
           \<and> targets m' = targets m \<and> defaultTargetName m' = defaultTargetName m
           \<and> map_of (clients m') name = Some a
           \<and> (case map_of (clients m) name of
                 Some a0 \<Rightarrow> a = a0 \<and> m' = m
               | None \<Rightarrow>
                   a = length (store m)
                   \<and> clients m' = clients m @ [(name, a)]
                   \<and> store m' = store m @
                        [McpChatClient pr ((t_options tg)\<lparr>o_useProcessEnv := Some (t_useProcessEnv tg)\<rparr>)])
           \<and> (\<forall>st. getClient pr (Some name) (m'\<lparr>store := st\<rparr>) = (Inr a, m'\<lparr>store := st\<rparr>))
           \<and> (wellCached m \<longrightarrow> wellCached m')))"
proof (intro conjI impI allI)
  show "getClient pr None m = getClient pr (Some (defaultTargetName m)) m"
    by (simp add: getClient_def)
next
  assume "\<not> hasTarget m name"
  then show "getClient pr (Some name) m = (Inl (UnknownTarget name), m)"
    by (simp add: getClient_def find_hasTarget)
next
  fix tg
  assume tg: "find (\<lambda>t. t_name t = name) (targets m) = Some tg"
  show "\<exists>a m'. getClient pr (Some name) m = (Inr a, m')
           \<and> targets m' = targets m \<and> defaultTargetName m' = defaultTargetName m
           \<and> map_of (clients m') name = Some a
           \<and> (case map_of (clients m) name of
                 Some a0 \<Rightarrow> a = a0 \<and> m' = m
               | None \<Rightarrow>
                   a = length (store m)
                   \<and> clients m' = clients m @ [(name, a)]
                   \<and> store m' = store m @
                        [McpChatClient pr ((t_options tg)\<lparr>o_useProcessEnv := Some (t_useProcessEnv tg)\<rparr>)])
           \<and> (\<forall>st. getClient pr (Some name) (m'\<lparr>store := st\<rparr>) = (Inr a, m'\<lparr>store := st\<rparr>))
           \<and> (wellCached m \<longrightarrow> wellCached m')"
  proof (cases "map_of (clients m) name")
    case (Some a0)
    then show ?thesis
      using tg by (simp add: getClient_def)
  next
    case None
    then have nb: "name \<notin> fst ` set (clients m)"
      by (simp add: map_of_eq_None_iff)
    have wc: "wellCached m \<Longrightarrow>
        wellCached (m\<lparr>clients := clients m @ [(name, length (store m))],
                      store := store m @
                        [McpChatClient pr ((t_options tg)\<lparr>o_useProcessEnv := Some (t_useProcessEnv tg)\<rparr>)]\<rparr>)"
      using nb by (simp add: wellCached_def)
    show ?thesis
      using tg None wc by (simp add: getClient_def Let_def map_add_def)
  qed
qed

lemma demoManager_eq:
  "demoManager =
     \<lparr>targets = [\<lparr>t_name = ''A'', t_options = demoOptions\<lparr>o_product := Some ''ACI''\<rparr>,
                   t_useProcessEnv = False\<rparr>,
                  \<lparr>t_name = ''A'', t_options = emptyOptions, t_useProcessEnv = False\<rparr>],
      clients = [], defaultTargetName = ''A'', store = []\<rparr>"
  by (simp add: demoManager_def ChatTargetManager_def)

theorem getClient_cached_witness:
  "\<exists>a m'. getClient noProcess None demoManager = (Inr a, m')
      \<and> a = 0 \<and> clients m' = [(''A'', 0)] \<and> length (store m') = 1
      \<and> getClient noProcess (Some ''A'') (m'\<lparr>store := [demoHalf]\<rparr>) = (Inr a, m'\<lparr>store := [demoHalf]\<rparr>)
      \<and> wellCached m'
      \<and> getClient noProcess (Some ''B'') demoManager = (Inl (UnknownTarget ''B''), demoManager)"
proof -
  let ?tg = "\<lparr>t_name = ''A'', t_options = demoOptions\<lparr>o_product := Some ''ACI''\<rparr>,
              t_useProcessEnv = False\<rparr>"
  have f: "find (\<lambda>t. t_name t = ''A'') (targets demoManager) = Some ?tg"
    by (simp add: demoManager_eq)
  have nb: "\<not> hasTarget demoManager ''B''"
    by (simp add: hasTarget_def demoManager_eq)
  have wc: "wellCached demoManager"
    by (simp add: wellCached_def demoManager_eq)
  have d: "defaultTargetName demoManager = ''A''" and c: "map_of (clients demoManager) ''A'' = None"
    and e: "clients demoManager = []" "store demoManager = []"
    by (simp_all add: demoManager_eq)
  note th = getClient_cached [of noProcess demoManager]
  from th [of "''B''"] nb
  have b: "getClient noProcess (Some ''B'') demoManager = (Inl (UnknownTarget ''B''), demoManager)"
    by blast
  from th [of "''A''"] f obtain a m' where
    g: "getClient noProcess (Some ''A'') demoManager = (Inr a, m')"
    and k: "case map_of (clients demoManager) ''A'' of
              Some a0 \<Rightarrow> a = a0 \<and> m' = demoManager
            | None \<Rightarrow>
                a = length (store demoManager)
                \<and> clients m' = clients demoManager @ [(''A'', a)]
                \<and> store m' = store demoManager @
                     [McpChatClient noProcess ((t_options ?tg)\<lparr>o_useProcessEnv := Some (t_useProcessEnv ?tg)\<rparr>)]"
    and l: "\<forall>st. getClient noProcess (Some ''A'') (m'\<lparr>store := st\<rparr>) = (Inr a, m'\<lparr>store := st\<rparr>)"
    and w: "wellCached demoManager \<longrightarrow> wellCached m'"
    by blast
  from th [of "''A''"] d g have g0: "getClient noProcess None demoManager = (Inr a, m')"
    by simp
  from k c e have "a = 0" "clients m' = [(''A'', 0)]" "length (store m') = 1"
    by simp_all
  with g0 l w wc b show ?thesis
    by blast
qed

section \<open>The summary of a target\<close>

text \<open>
  C9 (as amended): \<open>getTargetSummary\<close> changes nothing: the manager, its cache and every
  client of the store are after the call what they were before, and no client is built.
  It returns \<open>null\<close> for a name that no target has. For a target whose client was never
  built it reports not connected, an empty connection label, and as product filter the
  product configured in the target's options (\<open>null\<close> only when none is configured). For a
  target whose client exists it reports the client's connection state and label, and the
  client's product filter, or the configured product when the client has none.
\<close>

theorem getTargetSummary_readonly:
  "snd (getTargetSummary name m) = m
   \<and> (\<not> hasTarget m name \<longrightarrow> fst (getTargetSummary name m) = None)
   \<and> (\<forall>tg. find (\<lambda>t. t_name t = name) (targets m) = Some tg \<longrightarrow>
        (map_of (clients m) name = None \<longrightarrow>
           fst (getTargetSummary name m) =
             Some \<lparr>sum_name = name, sum_productFilter = o_product (t_options tg),
                   sum_connected = False, sum_connectionLabel = []\<rparr>)
      \<and> (\<forall>a c. map_of (clients m) name = Some a \<and> deref m a = Some c \<longrightarrow>
           fst (getTargetSummary name m) =
             Some \<lparr>sum_name = name,
                   sum_productFilter = orElse (productFilter c) (o_product (t_options tg)),
                   sum_connected = isConnected c,
                   sum_connectionLabel = connectionLabel c\<rparr>))"
  by (auto simp: getTargetSummary_def find_hasTarget orElse_def getProductFilter_def
      getConnectionLabel_def Let_def split: option.splits)

theorem getTargetSummary_readonly_witness:
  "getTargetSummary ''A'' demoManager =
     (Some \<lparr>sum_name = ''A'', sum_productFilter = Some ''ACI'', sum_connected = False,
            sum_connectionLabel = []\<rparr>, demoManager)
   \<and> getTargetSummary ''B'' demoManager = (None, demoManager)"
proof -
  let ?tg = "\<lparr>t_name = ''A'', t_options = demoOptions\<lparr>o_product := Some ''ACI''\<rparr>,
              t_useProcessEnv = False\<rparr>"
  have f: "find (\<lambda>t. t_name t = ''A'') (targets demoManager) = Some ?tg"
    by (simp add: demoManager_eq)
  have c: "map_of (clients demoManager) ''A'' = None"
    by (simp add: demoManager_eq)
  have nb: "\<not> hasTarget demoManager ''B''"
    by (simp add: hasTarget_def demoManager_eq)
  have "fst (getTargetSummary ''A'' demoManager) =
          Some \<lparr>sum_name = ''A'', sum_productFilter = o_product (t_options ?tg),
                sum_connected = False, sum_connectionLabel = []\<rparr>"
    using getTargetSummary_readonly [of "''A''" demoManager] f c by blast
  moreover have "snd (getTargetSummary ''A'' demoManager) = demoManager"
    using getTargetSummary_readonly [of "''A''" demoManager] by blast
  moreover have "fst (getTargetSummary ''B'' demoManager) = None"
    using getTargetSummary_readonly [of "''B''" demoManager] nb by blast
  moreover have "snd (getTargetSummary ''B'' demoManager) = demoManager"
    using getTargetSummary_readonly [of "''B''" demoManager] by blast
  ultimately show ?thesis
    by (simp add: prod_eq_iff)
qed

text \<open>
  C9 as stated fails for a target that has a product configured: its client was never
  built, and the summary reports the configured product, not \<open>null\<close>.
\<close>

theorem summary_reports_configured_product:
  "clients demoManager = [] \<and> store demoManager = []
   \<and> fst (getTargetSummary ''A'' demoManager) =
       Some \<lparr>sum_name = ''A'', sum_productFilter = Some ''ACI'', sum_connected = False,
             sum_connectionLabel = []\<rparr>"
  by (simp add: getTargetSummary_def demoManager_eq orElse_def)

section \<open>The primary key across connections\<close>

lemma connectInternal_tools_key:
  "connectInternal_tools e s = (r, s') \<Longrightarrow>
   toolName s' = toolName s \<and>
   primaryArgKey s' =
     (case r of Inl err \<Rightarrow> primaryArgKey s
      | Inr u \<Rightarrow> (case inferredKey e (toolName s) of None \<Rightarrow> primaryArgKey s | Some k \<Rightarrow> k))"
  by (auto simp: connectInternal_tools_def inferredKey_def Let_def
      split: sum.splits option.splits)

lemma connectInternal_transport_key:
  "connectInternal_transport e s = (r, s', evs) \<Longrightarrow>
   toolName s' = toolName s \<and> primaryArgKey s' = primaryArgKey s"
  by (auto simp: connectInternal_transport_def split: prod.splits sum.splits)

lemma connectInternal_key:
  assumes "connectInternal e s = (r, s', evs)"
  shows "toolName s' = toolName s \<and>
   primaryArgKey s' =
     (case r of Inl err \<Rightarrow> primaryArgKey s
      | Inr u \<Rightarrow> (case inferredKey e (toolName s) of None \<Rightarrow> primaryArgKey s | Some k \<Rightarrow> k))"
proof (cases "hasApiKey s")
  case False
  with assms show ?thesis
    by (auto simp: connectInternal_def)
next
  case True
  obtain r1 s1 evs1 where t: "connectInternal_transport e s = (r1, s1, evs1)"
    by (cases "connectInternal_transport e s") auto
  note k1 = connectInternal_transport_key [OF t]
  show ?thesis
  proof (cases r1)
    case (Inl err)
    with assms True t k1 show ?thesis
      by (auto simp: connectInternal_def)
  next
    case (Inr u)
    obtain r2 s2 where u: "connectInternal_tools e s1 = (r2, s2)"
      by (cases "connectInternal_tools e s1") auto
    note k2 = connectInternal_tools_key [OF u]
    from assms True t Inr u have "r = r2" "s' = s2"
      by (auto simp: connectInternal_def)
    with k1 k2 show ?thesis
      by (simp split: sum.splits option.splits)
  qed
qed

lemma connect_key:
  assumes "connect e s = (r, s', evs)"
  shows "toolName s' = toolName s \<and>
   (primaryArgKey s' = primaryArgKey s \<or>
    inferredKey e (toolName s) = Some (primaryArgKey s'))"
proof (cases "client s = None \<and> connectPromise s = None")
  case False
  with assms show ?thesis
    by (auto simp: connect_def split: option.splits promise.splits if_splits)
next
  case True
  obtain r1 s1 evs1 where c: "connectInternal e (s\<lparr>connectPromise := Some Pending\<rparr>) = (r1, s1, evs1)"
    by (cases "connectInternal e (s\<lparr>connectPromise := Some Pending\<rparr>)") auto
  from connectInternal_key [OF c]
  have k: "toolName s1 = toolName s"
    "primaryArgKey s1 = primaryArgKey s \<or> inferredKey e (toolName s) = Some (primaryArgKey s1)"
    by (auto split: sum.splits option.splits)
  from assms True c have "s' = s1 \<or> s' = s1\<lparr>connectPromise := Some (settled r1)\<rparr>"
    by (auto simp: connect_def split: if_splits)
  with k show ?thesis
    by auto
qed

lemma connect_ok_key:
  assumes "connect e s = (Some (Inr ()), s', evs)" and "client s = None"
    and "connectPromise s = None"
  shows "primaryArgKey s' =
           (case inferredKey e (toolName s) of None \<Rightarrow> primaryArgKey s | Some k \<Rightarrow> k)"
proof -
  obtain r1 s1 evs1 where c: "connectInternal e (s\<lparr>connectPromise := Some Pending\<rparr>) = (r1, s1, evs1)"
    by (cases "connectInternal e (s\<lparr>connectPromise := Some Pending\<rparr>)") auto
  from assms c have r: "r1 = Inr ()" and "s' = s1 \<or> s' = s1\<lparr>connectPromise := Some (settled r1)\<rparr>"
    by (auto simp: connect_def split: if_splits)
  with connectInternal_key [OF c] show ?thesis
    by (auto split: option.splits)
qed

lemma runOp_key:
  "toolName (runOp x s) = toolName s \<and>
   (\<not> infers x (toolName s) \<longrightarrow> primaryArgKey (runOp x s) = primaryArgKey s)"
proof (cases x)
  case (OpConnect e)
  obtain r s' evs where c: "connect e s = (r, s', evs)"
    by (cases "connect e s") auto
  from connect_key [OF c] c OpConnect show ?thesis
    by (auto simp: infers_def)
next
  case (OpClose e)
  then show ?thesis
    by (simp add: close_def infers_def)
qed

lemma runOps_key:
  "\<not> list_ex (\<lambda>x. infers x (toolName s)) ops \<Longrightarrow>
   toolName (runOps ops s) = toolName s \<and> primaryArgKey (runOps ops s) = primaryArgKey s"
proof (induction ops arbitrary: s)
  case Nil
  then show ?case by (simp add: runOps_def)
next
  case (Cons x ops)
  have tn: "toolName (runOp x s) = toolName s"
    using runOp_key [of x s] by simp
  from Cons.prems have a: "\<not> infers x (toolName s)"
    and b: "\<not> list_ex (\<lambda>y. infers y (toolName (runOp x s))) ops"
    by (simp_all add: tn)
  from Cons.IH [OF b] runOp_key [of x s] a
  show ?case
    by (simp add: runOps_def)
qed

text \<open>
  C10: \<open>close()\<close> resets the client handle, the transport handle, the selected tool and the
  connection label, and nothing else: the primary key stays. A connection made after the
  close stores the key it infers, and keeps the key the client had before the close when
  it infers none. Over every sequence of \<open>connect()\<close> and \<open>close()\<close> calls in which no
  connection infers a key, the key at the end is the key at the start (it never goes back
  to \<open>query\<close>).
\<close>

theorem close_keeps_primaryArgKey:
  "fst (close e s) =
     s\<lparr>client := None, transport := None, selectedTool := None, connectionLabel := []\<rparr>
   \<and> primaryArgKey (fst (close e s)) = primaryArgKey s
   \<and> (connectPromise s = None \<and> connect e2 (fst (close e s)) = (Some (Inr ()), s2, evs) \<longrightarrow>
        primaryArgKey s2 =
          (case inferredKey e2 (toolName s) of None \<Rightarrow> primaryArgKey s | Some k \<Rightarrow> k))
   \<and> (\<not> list_ex (\<lambda>x. infers x (toolName s)) ops \<longrightarrow>
        primaryArgKey (runOps ops s) = primaryArgKey s)"
proof (intro conjI impI)
  show "fst (close e s) =
     s\<lparr>client := None, transport := None, selectedTool := None, connectionLabel := []\<rparr>"
    by (simp add: close_def)
  show "primaryArgKey (fst (close e s)) = primaryArgKey s"
    by (simp add: close_def)
next
  assume a: "connectPromise s = None \<and> connect e2 (fst (close e s)) = (Some (Inr ()), s2, evs)"
  have "client (fst (close e s)) = None" "connectPromise (fst (close e s)) = connectPromise s"
    "toolName (fst (close e s)) = toolName s" "primaryArgKey (fst (close e s)) = primaryArgKey s"
    by (simp_all add: close_def)
  with connect_ok_key [of e2 "fst (close e s)" s2 evs] a
  show "primaryArgKey s2 =
          (case inferredKey e2 (toolName s) of None \<Rightarrow> primaryArgKey s | Some k \<Rightarrow> k)"
    by (simp split: option.splits)
next
  assume "\<not> list_ex (\<lambda>x. infers x (toolName s)) ops"
  then show "primaryArgKey (runOps ops s) = primaryArgKey s"
    by (simp add: runOps_key)
qed

lemma question_key:
  "primaryArgKey (fst (snd (connect envQuestion demoClient))) = ''question''"
  "toolName (fst (snd (connect envQuestion demoClient))) = ''ask_cisco_documentation''"
  by (simp_all add: connect_def demoClient_eq connectInternal_def hasApiKey_def
      connectInternal_transport_def connectWithFallback_def buildTransportAttempts_def
      initOptionsOf_def Let_def envQuestion_def envOk_def connectInternal_tools_def demoTool_def
      DEFAULT_TOOL_NAME_def questionSchema_def pickPrimaryArgument_def schemaProps_def
      propOf_def ownProps_def getProp_def)

lemma numbers_infers_nothing:
  "inferredKey envNumbers ''ask_cisco_documentation'' = None"
  by (simp add: inferredKey_def envNumbers_def envOk_def demoTool_def DEFAULT_TOOL_NAME_def
      numbersSchema_def pickPrimaryArgument_def schemaProps_def propOf_def ownProps_def
      getProp_def objectKeys_def Let_def)

theorem close_keeps_primaryArgKey_witness:
  "primaryArgKey demoClient = ''query''
   \<and> primaryArgKey (runOps [OpConnect envQuestion] demoClient) = ''question''
   \<and> primaryArgKey
        (runOps [OpConnect envQuestion, OpClose envOk, OpConnect envNumbers, OpClose envOk]
           demoClient) = ''question''"
proof -
  let ?s = "runOp (OpConnect envQuestion) demoClient"
  let ?ops = "[OpClose envOk, OpConnect envNumbers, OpClose envOk]"
  have n: "\<not> list_ex (\<lambda>x. infers x (toolName ?s)) ?ops"
    by (simp add: question_key infers_def numbers_infers_nothing)
  have "primaryArgKey (runOps ?ops ?s) = primaryArgKey ?s"
    using close_keeps_primaryArgKey [of envOk ?s envOk _ _ ?ops] n by blast
  then have "primaryArgKey (runOps (OpConnect envQuestion # ?ops) demoClient) = ''question''"
    by (simp add: runOps_def question_key)
  moreover have "primaryArgKey (runOps [OpConnect envQuestion] demoClient) = ''question''"
    by (simp add: runOps_def question_key)
  moreover have "primaryArgKey demoClient = ''query''"
    by (simp add: demoClient_eq)
  ultimately show ?thesis
    by simp
qed

end
